theory Spec2Isabelle
  imports Main "HOL-Library.Word"
begin

section \<open>Chronicle: the entity store of \<open>src/App.tsx\<close>\<close>

text \<open>
  The component \<open>App\<close> keeps its whole state in React state hooks and changes it only in
  event handlers and effects. Every handler is embedded as a function from the state before
  to the state after. What a handler reads from the environment (\<open>Math.random\<close>,
  \<open>Date.now\<close>, \<open>format\<close> of date-fns, \<open>JSON.parse\<close>, \<open>localStorage\<close>) is an argument of
  its model.
\<close>

subsection \<open>Strings\<close>

text \<open>
  A JavaScript string is a sequence of UTF-16 code units. \<open>str\<close> writes an ASCII literal.
\<close>

type_synonym jsstring = "16 word list"

definition str :: "string \<Rightarrow> jsstring" where
  "str cs = map (\<lambda>c. of_nat (of_char c)) cs"

text \<open>
  \<open>String.prototype.trim\<close> strips the code points of WhiteSpace and LineTerminator of
  ECMAScript from both ends: TAB, LF, VT, FF, CR, SP, NBSP, U+1680, U+2000 to U+200A,
  U+2028, U+2029, U+202F, U+205F, U+3000 and U+FEFF.
\<close>

definition is_js_space :: "16 word \<Rightarrow> bool" where
  "is_js_space c \<longleftrightarrow>
     c \<in> set [0x9, 0xA, 0xB, 0xC, 0xD, 0x20, 0xA0, 0x1680, 0x2028, 0x2029, 0x202F, 0x205F,
       0x3000, 0xFEFF]
     \<or> (0x2000 \<le> c \<and> c \<le> 0x200A)"

definition trim :: "jsstring \<Rightarrow> jsstring" where
  "trim s = rev (dropWhile is_js_space (rev (dropWhile is_js_space s)))"

text \<open>The exceptions that the modelled code can throw.\<close>

datatype error = SyntaxError | TypeError

subsection \<open>The data model of \<open>types.ts\<close>\<close>

text \<open>
  The interfaces share field names, so each record prefixes its own: \<open>p_\<close> for Photo,
  \<open>st_\<close> for SubTask, \<open>g_\<close> for BigGoal, \<open>e_\<close> for DiaryEntry. Numbers hold
  \<open>Date.now()\<close>, an integer count of milliseconds.
\<close>

record Photo =
  p_id :: jsstring
  p_url :: jsstring
  p_timestamp :: int

record SubTask =
  st_id :: jsstring
  st_title :: jsstring
  st_completed :: bool
  st_photos :: "Photo list"
  st_createdAt :: int

record BigGoal =
  g_id :: jsstring
  g_title :: jsstring
  g_completed :: bool
  g_photos :: "Photo list"
  g_subTasks :: "SubTask list"
  g_createdAt :: int

record DiaryEntry =
  e_id :: jsstring
  e_content :: jsstring
  e_photos :: "Photo list"
  e_date :: jsstring
  e_createdAt :: int

text \<open>
  The state hooks of \<open>App\<close> (lines 131 to 148) that the handlers below read or write. A
  \<open>Date\<close> is its time value; the two \<open>Record<string, _>\<close> objects are maps.
\<close>

type_synonym jsdate = int

record app =
  goals :: "BigGoal list"
  diaryEntries :: "DiaryEntry list"
  isSubscribed :: bool
  selectedDate :: jsdate
  newGoalTitle :: jsstring
  diaryContent :: jsstring
  tempPhotos :: "Photo list"
  subTaskInputs :: "jsstring \<rightharpoonup> jsstring"
  subTaskPhotos :: "jsstring \<rightharpoonup> Photo list"

text \<open>The initial values of the hooks; \<open>today\<close> is \<open>startOfToday()\<close>.\<close>

definition initial :: "jsdate \<Rightarrow> app" where
  "initial today =
     \<lparr>goals = [], diaryEntries = [], isSubscribed = False, selectedDate = today,
      newGoalTitle = [], diaryContent = [], tempPhotos = [],
      subTaskInputs = Map.empty, subTaskPhotos = Map.empty\<rparr>"

subsection \<open>Goals and subtasks\<close>

text \<open>
  \<open>addGoal\<close> (lines 199 to 212). \<open>rid\<close> is the value of
  \<open>Math.random().toString(36).substr(2, 9)\<close> and \<open>now\<close> that of \<open>Date.now()\<close>.
\<close>

definition addGoal :: "jsstring \<Rightarrow> int \<Rightarrow> app \<Rightarrow> app" where
  "addGoal rid now s =
     (if trim (newGoalTitle s) = [] then s
      else
        let newGoal =
              \<lparr>g_id = rid, g_title = newGoalTitle s, g_completed = False,
               g_photos = tempPhotos s, g_subTasks = [], g_createdAt = now\<rparr>
        in s\<lparr>goals := newGoal # goals s, newGoalTitle := [], tempPhotos := []\<rparr>)"

text \<open>
  The title reaches \<open>addGoal\<close> through the input hook: \<open>onChange\<close> of the text field
  (line 378) stores it, and every photo read by \<open>handlePhotoUpload\<close> (line 187) has been
  appended to \<open>tempPhotos\<close>. \<open>goalInput\<close> is the state after both.
\<close>

definition goalInput :: "jsstring \<Rightarrow> Photo list \<Rightarrow> app \<Rightarrow> app" where
  "goalInput title photos s = s\<lparr>newGoalTitle := title, tempPhotos := photos\<rparr>"

text \<open>A run of calls, each a title, the photos, the random id and the time of the call.\<close>

type_synonym call = "jsstring \<times> Photo list \<times> jsstring \<times> int"

definition ridOf :: "call \<Rightarrow> jsstring" where
  "ridOf c = (case c of (title, photos, rid, now) \<Rightarrow> rid)"

fun addGoals :: "call list \<Rightarrow> app \<Rightarrow> app" where
  "addGoals [] s = s"
| "addGoals ((title, photos, rid, now) # cs) s =
     addGoals cs (addGoal rid now (goalInput title photos s))"

text \<open>
  \<open>addSubTask\<close> (lines 214 to 232). \<open>subTaskInputs[goalId]\<close> is \<open>undefined\<close> for a
  missing key, and \<open>!title?.trim()\<close> is then true.
\<close>

definition addSubTask :: "jsstring \<Rightarrow> jsstring \<Rightarrow> int \<Rightarrow> app \<Rightarrow> app" where
  "addSubTask goalId rid now s =
     (case subTaskInputs s goalId of
        None \<Rightarrow> s
      | Some title \<Rightarrow>
          if trim title = [] then s
          else
            let newSubTask =
                  \<lparr>st_id = rid, st_title = title, st_completed = False,
                   st_photos = (case subTaskPhotos s goalId of None \<Rightarrow> [] | Some ps \<Rightarrow> ps),
                   st_createdAt = now\<rparr>
            in s\<lparr>goals :=
                   map (\<lambda>g. if g_id g = goalId
                             then g\<lparr>g_subTasks := g_subTasks g @ [newSubTask]\<rparr> else g)
                     (goals s),
                 subTaskInputs := (subTaskInputs s)(goalId \<mapsto> []),
                 subTaskPhotos := (subTaskPhotos s)(goalId \<mapsto> [])\<rparr>)"

text \<open>
  The subtask title is stored by \<open>onChange\<close> of the goal's text field (line 501), the
  photos by \<open>handlePhotoUpload\<close> (lines 189 to 192).
\<close>

definition subTaskInput :: "jsstring \<Rightarrow> jsstring \<Rightarrow> Photo list \<Rightarrow> app \<Rightarrow> app" where
  "subTaskInput goalId title photos s =
     s\<lparr>subTaskInputs := (subTaskInputs s)(goalId \<mapsto> title),
       subTaskPhotos := (subTaskPhotos s)(goalId \<mapsto> photos)\<rparr>"

fun addSubTasks ::
  "jsstring \<Rightarrow> call list \<Rightarrow> app \<Rightarrow> app" where
  "addSubTasks goalId [] s = s"
| "addSubTasks goalId ((title, photos, rid, now) # cs) s =
     addSubTasks goalId cs (addSubTask goalId rid now (subTaskInput goalId title photos s))"

text \<open>The goal and the subtask that one call of such a run builds.\<close>

definition goalOf :: "call \<Rightarrow> BigGoal" where
  "goalOf c =
     (case c of (title, photos, rid, now) \<Rightarrow>
        \<lparr>g_id = rid, g_title = title, g_completed = False, g_photos = photos,
         g_subTasks = [], g_createdAt = now\<rparr>)"

definition subTaskOf :: "call \<Rightarrow> SubTask" where
  "subTaskOf c =
     (case c of (title, photos, rid, now) \<Rightarrow>
        \<lparr>st_id = rid, st_title = title, st_completed = False, st_photos = photos,
         st_createdAt = now\<rparr>)"

text \<open>
  The store of the scenario of the specification: the goal "Learn piano" without photos,
  and its subtask "Practice scales".
\<close>

definition scenario :: app where
  "scenario =
     addSubTasks (str ''g1'') [(str ''Practice scales'', [], str ''t1'', 2)]
       (addGoals [(str ''Learn piano'', [], str ''g1'', 1)] (initial 0))"

text \<open>
  \<open>toggleGoal\<close> (lines 234 to 236) and \<open>toggleSubTask\<close> (lines 238 to 245). Each maps
  an arrow function over the goals; \<open>flipGoal\<close>, \<open>flipSubTask\<close> and \<open>flipSubTaskOf\<close> are
  those arrow functions.
\<close>

definition flipGoal :: "jsstring \<Rightarrow> BigGoal \<Rightarrow> BigGoal" where
  "flipGoal i g = (if g_id g = i then g\<lparr>g_completed := \<not> g_completed g\<rparr> else g)"

definition toggleGoal :: "jsstring \<Rightarrow> app \<Rightarrow> app" where
  "toggleGoal i s = s\<lparr>goals := map (flipGoal i) (goals s)\<rparr>"

definition flipSubTask :: "jsstring \<Rightarrow> SubTask \<Rightarrow> SubTask" where
  "flipSubTask subTaskId st =
     (if st_id st = subTaskId then st\<lparr>st_completed := \<not> st_completed st\<rparr> else st)"

definition flipSubTaskOf :: "jsstring \<Rightarrow> jsstring \<Rightarrow> BigGoal \<Rightarrow> BigGoal" where
  "flipSubTaskOf goalId subTaskId g =
     (if g_id g = goalId
      then g\<lparr>g_subTasks := map (flipSubTask subTaskId) (g_subTasks g)\<rparr>
      else g)"

definition toggleSubTask :: "jsstring \<Rightarrow> jsstring \<Rightarrow> app \<Rightarrow> app" where
  "toggleSubTask goalId subTaskId s = s\<lparr>goals := map (flipSubTaskOf goalId subTaskId) (goals s)\<rparr>"

text \<open>\<open>deleteGoal\<close> (lines 247 to 249) and \<open>deleteSubTask\<close> (lines 251 to 258).\<close>

definition deleteGoal :: "jsstring \<Rightarrow> app \<Rightarrow> app" where
  "deleteGoal i s = s\<lparr>goals := filter (\<lambda>g. g_id g \<noteq> i) (goals s)\<rparr>"

definition dropSubTaskOf :: "jsstring \<Rightarrow> jsstring \<Rightarrow> BigGoal \<Rightarrow> BigGoal" where
  "dropSubTaskOf goalId subTaskId g =
     (if g_id g = goalId
      then g\<lparr>g_subTasks := filter (\<lambda>st. st_id st \<noteq> subTaskId) (g_subTasks g)\<rparr>
      else g)"

definition deleteSubTask :: "jsstring \<Rightarrow> jsstring \<Rightarrow> app \<Rightarrow> app" where
  "deleteSubTask goalId subTaskId s = s\<lparr>goals := map (dropSubTaskOf goalId subTaskId) (goals s)\<rparr>"

subsection \<open>The diary\<close>

text \<open>\<open>Array.prototype.findIndex\<close>: the first index whose element passes, or \<open>-1\<close>.\<close>

fun findIndex :: "('a \<Rightarrow> bool) \<Rightarrow> 'a list \<Rightarrow> int" where
  "findIndex P [] = - 1"
| "findIndex P (x # xs) =
     (if P x then 0 else let r = findIndex P xs in if r < 0 then - 1 else r + 1)"

text \<open>
  \<open>saveDiaryEntry\<close> (lines 260 to 284). \<open>fmt\<close> is \<open>format(_, 'yyyy-MM-dd')\<close> of date-fns,
  \<open>rid\<close> and \<open>now\<close> are as in \<open>addGoal\<close>. The index that \<open>findIndex\<close> returns is within
  the array whenever it is not negative, so the read and the write at it are those of a list.
\<close>

definition saveDiaryEntry :: "(jsdate \<Rightarrow> jsstring) \<Rightarrow> jsstring \<Rightarrow> int \<Rightarrow> app \<Rightarrow> app" where
  "saveDiaryEntry fmt rid now s =
     (if trim (diaryContent s) = [] \<and> length (tempPhotos s) = 0 then s
      else
        let dateStr = fmt (selectedDate s);
            existingIndex = findIndex (\<lambda>e. e_date e = dateStr) (diaryEntries s);
            newEntry =
              \<lparr>e_id = (if existingIndex \<ge> 0 then e_id (diaryEntries s ! nat existingIndex)
                       else rid),
               e_content = diaryContent s, e_photos = tempPhotos s, e_date = dateStr,
               e_createdAt = now\<rparr>
        in s\<lparr>diaryEntries :=
                (if existingIndex \<ge> 0 then (diaryEntries s)[nat existingIndex := newEntry]
                 else newEntry # diaryEntries s),
              diaryContent := [], tempPhotos := []\<rparr>)"

text \<open>
  One save as the user makes it: the date is selected (lines 564 and 578), the text is
  typed into the draft (line 591), the photos of the draft are added (line 187) or removed
  (line 596), and the button calls \<open>saveDiaryEntry\<close>. The effect of lines 288 to 296, which
  reloads the draft after a change of the date or of the entries, writes \<open>diaryContent\<close> and
  \<open>tempPhotos\<close> only, the two hooks that the user's edits replace here.
\<close>

definition saveEntry ::
  "(jsdate \<Rightarrow> jsstring) \<Rightarrow> jsdate \<Rightarrow> jsstring \<Rightarrow> Photo list \<Rightarrow> jsstring \<Rightarrow> int \<Rightarrow> app \<Rightarrow> app" where
  "saveEntry fmt d content photos rid now s =
     saveDiaryEntry fmt rid now
       (s\<lparr>selectedDate := d, diaryContent := content, tempPhotos := photos\<rparr>)"

fun saveEntries ::
  "(jsdate \<Rightarrow> jsstring) \<Rightarrow> jsdate \<Rightarrow> call list \<Rightarrow> app \<Rightarrow> app" where
  "saveEntries fmt d [] s = s"
| "saveEntries fmt d ((content, photos, rid, now) # cs) s =
     saveEntries fmt d cs (saveEntry fmt d content photos rid now s)"

text \<open>The entries of one date.\<close>

definition entriesOn :: "jsstring \<Rightarrow> app \<Rightarrow> DiaryEntry list" where
  "entriesOn D s = filter (\<lambda>e. e_date e = D) (diaryEntries s)"

text \<open>
  A store with two diary entries, the older one in front (out of the order in which the
  handlers would have put them, to tell the index of an entry from the head), and the
  formatter at the day that is selected in the examples.
\<close>

definition entry14 :: DiaryEntry where
  "entry14 =
     \<lparr>e_id = str ''d0'', e_content = str ''Rest day'', e_photos = [],
      e_date = str ''2024-01-14'', e_createdAt = 5\<rparr>"

definition entry15 :: DiaryEntry where
  "entry15 =
     \<lparr>e_id = str ''d1'', e_content = str ''Practiced for an hour'', e_photos = [],
      e_date = str ''2024-01-15'', e_createdAt = 10\<rparr>"

definition diary2 :: app where
  "diary2 = (initial 0)\<lparr>diaryEntries := [entry14, entry15]\<rparr>"

definition jan15 :: "jsdate \<Rightarrow> jsstring" where
  "jan15 t = str ''2024-01-15''"

subsection \<open>Removing photos\<close>

text \<open>
  \<open>PhotoGrid\<close> (lines 102 to 126) draws a remove button on each of its photos only when it
  was given \<open>onRemove\<close>; the button calls \<open>onRemove(photo.id)\<close>. Without \<open>onRemove\<close>, or
  for an id that is not in the grid, there is nothing to click and the state stays.
\<close>

definition PhotoGrid ::
  "Photo list \<Rightarrow> (jsstring \<Rightarrow> app \<Rightarrow> error + app) option \<Rightarrow> jsstring \<Rightarrow> app \<Rightarrow> error + app" where
  "PhotoGrid photos onRemove pid s =
     (case onRemove of
        None \<Rightarrow> Inr s
      | Some f \<Rightarrow> if pid \<in> p_id ` set photos then f pid s else Inr s)"

text \<open>The handler given to the grids of the pending photos (lines 407 and 596).\<close>

definition removeTempPhoto :: "jsstring \<Rightarrow> app \<Rightarrow> error + app" where
  "removeTempPhoto pid s = Inr (s\<lparr>tempPhotos := filter (\<lambda>p. p_id p \<noteq> pid) (tempPhotos s)\<rparr>)"

text \<open>
  The handler given to the grid of a goal's pending subtask photos (lines 527 to 530);
  \<open>prev[goal.id].filter\<close> throws when the key is missing.
\<close>

definition removeSubTaskPhoto :: "jsstring \<Rightarrow> jsstring \<Rightarrow> app \<Rightarrow> error + app" where
  "removeSubTaskPhoto goalId pid s =
     (case subTaskPhotos s goalId of
        None \<Rightarrow> Inl TypeError
      | Some ps \<Rightarrow>
          Inr (s\<lparr>subTaskPhotos := (subTaskPhotos s)(goalId \<mapsto> filter (\<lambda>p. p_id p \<noteq> pid) ps)\<rparr>))"

text \<open>
  The photo collections that the component draws: the pending photos of the goal and diary
  inputs, the pending photos of a goal's subtask input, the photos of a stored goal and
  those of a stored subtask. The photos of a stored diary entry are drawn only through the
  draft that the effect loads into the pending photos.
\<close>

datatype collection =
  Pending
  | PendingSubTask jsstring
  | GoalPhotos jsstring
  | SubTaskPhotos jsstring jsstring

definition photosOf :: "collection \<Rightarrow> app \<Rightarrow> Photo list" where
  "photosOf c s =
     (case c of
        Pending \<Rightarrow> tempPhotos s
      | PendingSubTask goalId \<Rightarrow> (case subTaskPhotos s goalId of None \<Rightarrow> [] | Some ps \<Rightarrow> ps)
      | GoalPhotos goalId \<Rightarrow> concat (map g_photos (filter (\<lambda>g. g_id g = goalId) (goals s)))
      | SubTaskPhotos goalId subTaskId \<Rightarrow>
          concat (map st_photos (filter (\<lambda>st. st_id st = subTaskId)
            (concat (map g_subTasks (filter (\<lambda>g. g_id g = goalId) (goals s)))))))"

text \<open>
  Removing a photo is a click in the grid of its collection. The grids of lines 405 and 594
  and the grid of line 525 (drawn for a goal of the goal sequence, line 414, and only when
  it has pending subtask photos, line 523) are given a handler; the grids of the stored
  photos (lines 458 and 488) are not.
\<close>

definition removePhoto :: "collection \<Rightarrow> jsstring \<Rightarrow> app \<Rightarrow> error + app" where
  "removePhoto c pid s =
     (case c of
        Pending \<Rightarrow> PhotoGrid (tempPhotos s) (Some removeTempPhoto) pid s
      | PendingSubTask goalId \<Rightarrow>
          if goalId \<in> g_id ` set (goals s)
          then (case subTaskPhotos s goalId of
                  None \<Rightarrow> Inr s
                | Some ps \<Rightarrow>
                    if length ps > 0 then PhotoGrid ps (Some (removeSubTaskPhoto goalId)) pid s
                    else Inr s)
          else Inr s
      | GoalPhotos goalId \<Rightarrow> PhotoGrid (photosOf c s) None pid s
      | SubTaskPhotos goalId subTaskId \<Rightarrow> PhotoGrid (photosOf c s) None pid s)"

subsection \<open>Loading from storage\<close>

text \<open>
  One line of the load effect, \<open>if (saved) set(JSON.parse(saved))\<close>: \<open>getItem\<close> gives
  \<open>null\<close> for a missing key, and \<open>null\<close> and the empty string are falsy. \<open>JSON.parse\<close>
  either returns a value or throws a SyntaxError; it is the argument \<open>parse\<close>.
\<close>

fun hydrate ::
  "(jsstring \<Rightarrow> error + 'a) \<Rightarrow> jsstring option \<Rightarrow> ('a \<Rightarrow> app \<Rightarrow> app) \<Rightarrow> app \<Rightarrow> error + app" where
  "hydrate parse None setter s = Inr s"
| "hydrate parse (Some saved) setter s =
     (if saved = [] then Inr s
      else case parse saved of Inl e \<Rightarrow> Inl e | Inr v \<Rightarrow> Inr (setter v s))"

text \<open>
  The load effect (lines 151 to 159). An exception leaves the effect at the line that
  threw it, so the lines after it do not run.
\<close>

definition load ::
  "(jsstring \<Rightarrow> error + BigGoal list) \<Rightarrow> (jsstring \<Rightarrow> error + DiaryEntry list) \<Rightarrow>
   (jsstring \<Rightarrow> error + bool) \<Rightarrow> (jsstring \<rightharpoonup> jsstring) \<Rightarrow> app \<Rightarrow> error + app" where
  "load parseGoals parseDiary parseSub localStorage s =
     (let savedGoals = localStorage (str ''chronicle_goals'');
          savedDiary = localStorage (str ''chronicle_diary'');
          savedSub = localStorage (str ''chronicle_sub'')
      in case hydrate parseGoals savedGoals (\<lambda>v s. s\<lparr>goals := v\<rparr>) s of
           Inl e \<Rightarrow> Inl e
         | Inr s1 \<Rightarrow>
             (case hydrate parseDiary savedDiary (\<lambda>v s. s\<lparr>diaryEntries := v\<rparr>) s1 of
                Inl e \<Rightarrow> Inl e
              | Inr s2 \<Rightarrow> hydrate parseSub savedSub (\<lambda>v s. s\<lparr>isSubscribed := v\<rparr>) s2))"

text \<open>
  The text that the load effect parses for a key: none when the key is missing or holds
  the empty string.
\<close>

definition stored :: "(jsstring \<rightharpoonup> jsstring) \<Rightarrow> string \<Rightarrow> jsstring option" where
  "stored localStorage key =
     (case localStorage (str key) of
        None \<Rightarrow> None
      | Some saved \<Rightarrow> if saved = [] then None else Some saved)"

text \<open>
  A stored text is unparseable when \<open>JSON.parse\<close> throws on it; \<open>valueOr\<close> is the value
  of a slice after its line of the effect has run without throwing.
\<close>

definition unparseable :: "(jsstring \<Rightarrow> error + 'a) \<Rightarrow> jsstring option \<Rightarrow> bool" where
  "unparseable parse saved = (case saved of None \<Rightarrow> False | Some t \<Rightarrow> isl (parse t))"

definition valueOr :: "(jsstring \<Rightarrow> error + 'a) \<Rightarrow> jsstring option \<Rightarrow> 'a \<Rightarrow> 'a" where
  "valueOr parse saved dflt =
     (case saved of
        None \<Rightarrow> dflt
      | Some t \<Rightarrow> (case parse t of Inl e \<Rightarrow> dflt | Inr v \<Rightarrow> v))"

text \<open>
  For the examples, \<open>JSON.parse\<close> at the texts they store: \<open>parseOnly text v\<close> reads
  \<open>text\<close> as \<open>v\<close> and throws on any other text, such as the text \<open>{\<close>.
\<close>

definition parseOnly :: "jsstring \<Rightarrow> 'a \<Rightarrow> jsstring \<Rightarrow> error + 'a" where
  "parseOnly text v t = (if t = text then Inr v else Inl SyntaxError)"

text \<open>
  A store with a photo in each collection: \<open>ph1\<close> on the goal, \<open>ph2\<close> on its subtask,
  \<open>ph3\<close> pending in the goal input and \<open>ph4\<close> pending in the subtask input of the goal.
\<close>

definition photo :: "string \<Rightarrow> Photo" where
  "photo i = \<lparr>p_id = str i, p_url = str ''data:image/png;base64,AA=='', p_timestamp = 0\<rparr>"

definition photoStore :: app where
  "photoStore =
     subTaskInput (str ''g1'') [] [photo ''ph4'']
       (goalInput [] [photo ''ph3'']
          (addSubTasks (str ''g1'') [(str ''Practice scales'', [photo ''ph2''], str ''t1'', 2)]
             (addGoals [(str ''Learn piano'', [photo ''ph1''], str ''g1'', 1)] (initial 0))))"

subsection \<open>Adding a goal\<close>

text \<open>
  C5. \<open>addGoal\<close> takes its title and photos from the input hooks \<open>newGoalTitle\<close> and
  \<open>tempPhotos\<close>. When the trimmed title is empty the state is returned unchanged.
  Otherwise the goal sequence gets one more goal at its head, with \<open>completed = false\<close>, no
  subtasks and the given photos, and the goals that were there follow unchanged.
\<close>

theorem addGoal_spec:
  "(trim (newGoalTitle s) = [] \<longrightarrow> addGoal rid now s = s) \<and>
   (trim (newGoalTitle s) \<noteq> [] \<longrightarrow>
      goals (addGoal rid now s) =
        \<lparr>g_id = rid, g_title = newGoalTitle s, g_completed = False,
         g_photos = tempPhotos s, g_subTasks = [], g_createdAt = now\<rparr> # goals s \<and>
      diaryEntries (addGoal rid now s) = diaryEntries s \<and>
      isSubscribed (addGoal rid now s) = isSubscribed s)"
  by (simp add: addGoal_def Let_def)

theorem addGoal_spec_witness:
  "trim (newGoalTitle ((initial 0)\<lparr>newGoalTitle := str ''  ''\<rparr>)) = [] \<and>
   addGoal (str ''k3x9'') 1700000000000 ((initial 0)\<lparr>newGoalTitle := str ''  ''\<rparr>) =
     (initial 0)\<lparr>newGoalTitle := str ''  ''\<rparr> \<and>
   trim (newGoalTitle ((initial 0)\<lparr>newGoalTitle := str ''Learn piano''\<rparr>)) \<noteq> [] \<and>
   goals (addGoal (str ''k3x9'') 1700000000000
            ((initial 0)\<lparr>newGoalTitle := str ''Learn piano''\<rparr>)) =
     [\<lparr>g_id = str ''k3x9'', g_title = str ''Learn piano'', g_completed = False,
       g_photos = [], g_subTasks = [], g_createdAt = 1700000000000\<rparr>]"
  using addGoal_spec [of "(initial 0)\<lparr>newGoalTitle := str ''  ''\<rparr>" "str ''k3x9''" 1700000000000]
    addGoal_spec [of "(initial 0)\<lparr>newGoalTitle := str ''Learn piano''\<rparr>" "str ''k3x9''"
      1700000000000]
  by (simp add: initial_def trim_def str_def is_js_space_def)

subsection \<open>Toggling\<close>

lemma scenario_eq:
  "scenario =
     \<lparr>goals =
        [\<lparr>g_id = str ''g1'', g_title = str ''Learn piano'', g_completed = False,
          g_photos = [],
          g_subTasks =
            [\<lparr>st_id = str ''t1'', st_title = str ''Practice scales'', st_completed = False,
              st_photos = [], st_createdAt = 2\<rparr>],
          g_createdAt = 1\<rparr>],
      diaryEntries = [], isSubscribed = False, selectedDate = 0, newGoalTitle = [],
      diaryContent = [], tempPhotos = [], subTaskInputs = [str ''g1'' \<mapsto> []],
      subTaskPhotos = [str ''g1'' \<mapsto> []]\<rparr>"
  by (simp add: scenario_def initial_def addGoal_def goalInput_def addSubTask_def
      subTaskInput_def trim_def is_js_space_def str_def)

lemma flipGoal_twice: "flipGoal i (flipGoal i g) = g"
  by (simp add: flipGoal_def)

lemma flipSubTask_twice: "flipSubTask t (flipSubTask t st) = st"
  by (simp add: flipSubTask_def)

lemma flipSubTaskOf_twice: "flipSubTaskOf i t (flipSubTaskOf i t g) = g"
  by (simp add: flipSubTaskOf_def comp_def flipSubTask_twice)

lemma toggleGoal_twice: "toggleGoal i (toggleGoal i s) = s"
  by (simp add: toggleGoal_def comp_def flipGoal_twice)

lemma toggleSubTask_twice: "toggleSubTask i t (toggleSubTask i t s) = s"
  by (simp add: toggleSubTask_def comp_def flipSubTaskOf_twice)

lemma toggleGoal_absent:
  assumes "i \<notin> g_id ` set (goals s)"
  shows "toggleGoal i s = s"
proof -
  have "map (flipGoal i) (goals s) = goals s"
    using assms by (intro map_idI) (auto simp: flipGoal_def)
  then show ?thesis by (simp add: toggleGoal_def)
qed

lemma flipSubTaskOf_absent:
  "g_id g = i \<longrightarrow> t \<notin> st_id ` set (g_subTasks g) \<Longrightarrow> flipSubTaskOf i t g = g"
proof (cases "g_id g = i")
  case True
  assume "g_id g = i \<longrightarrow> t \<notin> st_id ` set (g_subTasks g)"
  with True have "map (flipSubTask t) (g_subTasks g) = g_subTasks g"
    by (auto simp: flipSubTask_def intro!: map_idI)
  then show ?thesis by (simp add: flipSubTaskOf_def)
qed (simp add: flipSubTaskOf_def)

lemma toggleSubTask_absent:
  "\<forall>g \<in> set (goals s). g_id g = i \<longrightarrow> t \<notin> st_id ` set (g_subTasks g) \<Longrightarrow>
     toggleSubTask i t s = s"
  by (simp add: toggleSubTask_def flipSubTaskOf_absent map_idI)

text \<open>
  C7. \<open>toggleGoal\<close> negates \<open>completed\<close> of every goal that has the id and returns the
  state unchanged when no goal has it. \<open>toggleSubTask\<close> negates \<open>completed\<close> of every
  subtask with the subtask id inside a goal with the goal id, and returns the state unchanged
  when there is no such subtask. Two calls of either with the same ids give back the state
  they started from, and with it the original \<open>completed\<close> flag.
\<close>

theorem toggle_spec:
  "(i \<notin> g_id ` set (goals s) \<longrightarrow> toggleGoal i s = s) \<and>
   length (goals (toggleGoal i s)) = length (goals s) \<and>
   (\<forall>k < length (goals s). g_id (goals s ! k) = i \<longrightarrow>
      goals (toggleGoal i s) ! k = (goals s ! k)\<lparr>g_completed := \<not> g_completed (goals s ! k)\<rparr>) \<and>
   toggleGoal i (toggleGoal i s) = s \<and>
   ((\<forall>g \<in> set (goals s). g_id g = i \<longrightarrow> t \<notin> st_id ` set (g_subTasks g)) \<longrightarrow>
      toggleSubTask i t s = s) \<and>
   length (goals (toggleSubTask i t s)) = length (goals s) \<and>
   (\<forall>k < length (goals s). g_id (goals s ! k) = i \<longrightarrow>
      length (g_subTasks (goals (toggleSubTask i t s) ! k)) = length (g_subTasks (goals s ! k)) \<and>
      (\<forall>j < length (g_subTasks (goals s ! k)). st_id (g_subTasks (goals s ! k) ! j) = t \<longrightarrow>
         g_subTasks (goals (toggleSubTask i t s) ! k) ! j =
           (g_subTasks (goals s ! k) ! j)\<lparr>st_completed :=
              \<not> st_completed (g_subTasks (goals s ! k) ! j)\<rparr>)) \<and>
   toggleSubTask i t (toggleSubTask i t s) = s"
proof -
  have c: "\<forall>k < length (goals s). g_id (goals s ! k) = i \<longrightarrow>
      goals (toggleGoal i s) ! k = (goals s ! k)\<lparr>g_completed := \<not> g_completed (goals s ! k)\<rparr>"
    by (simp add: toggleGoal_def flipGoal_def)
  have d: "\<forall>k < length (goals s). g_id (goals s ! k) = i \<longrightarrow>
      length (g_subTasks (goals (toggleSubTask i t s) ! k)) = length (g_subTasks (goals s ! k)) \<and>
      (\<forall>j < length (g_subTasks (goals s ! k)). st_id (g_subTasks (goals s ! k) ! j) = t \<longrightarrow>
         g_subTasks (goals (toggleSubTask i t s) ! k) ! j =
           (g_subTasks (goals s ! k) ! j)\<lparr>st_completed :=
              \<not> st_completed (g_subTasks (goals s ! k) ! j)\<rparr>)"
    by (simp add: toggleSubTask_def flipSubTaskOf_def flipSubTask_def)
  have e: "length (goals (toggleGoal i s)) = length (goals s)"
    "length (goals (toggleSubTask i t s)) = length (goals s)"
    by (simp_all add: toggleGoal_def toggleSubTask_def)
  show ?thesis
    using c d e toggleGoal_absent [of i s] toggleSubTask_absent [of s i t]
      toggleGoal_twice [of i s] toggleSubTask_twice [of i t s]
    by blast
qed

theorem toggle_spec_witness:
  "str ''g9'' \<notin> g_id ` set (goals scenario) \<and>
   toggleGoal (str ''g9'') scenario = scenario \<and>
   (0::nat) < length (goals scenario) \<and>
   g_id (goals scenario ! 0) = str ''g1'' \<and>
   g_completed (goals scenario ! 0) = False \<and>
   g_completed (goals (toggleGoal (str ''g1'') scenario) ! 0) = True \<and>
   toggleGoal (str ''g1'') (toggleGoal (str ''g1'') scenario) = scenario \<and>
   toggleSubTask (str ''g1'') (str ''t9'') scenario = scenario \<and>
   st_id (g_subTasks (goals scenario ! 0) ! 0) = str ''t1'' \<and>
   st_completed (g_subTasks (goals scenario ! 0) ! 0) = False \<and>
   st_completed (g_subTasks (goals (toggleSubTask (str ''g1'') (str ''t1'') scenario) ! 0) ! 0) = True"
  using toggle_spec [of "str ''g9''" scenario "str ''t1''"]
    toggle_spec [of "str ''g1''" scenario "str ''t9''"]
    toggle_spec [of "str ''g1''" scenario "str ''t1''"]
  by (simp add: scenario_eq str_def)

text \<open>
  C8. \<open>toggleSubTask\<close> leaves the \<open>completed\<close> flag of every goal as it was: a goal
  changes in its subtask sequence only, a goal with another id does not change at all, a
  subtask changes in its \<open>completed\<close> flag only, and a subtask with another id does not change
  at all. \<open>toggleGoal\<close> leaves every subtask sequence as it was: a goal changes in its
  \<open>completed\<close> flag only, and a goal with another id does not change at all. Neither touches
  anything of the state but the goals.
\<close>

theorem toggle_frame:
  "length (goals (toggleSubTask i t s)) = length (goals s) \<and>
   map g_completed (goals (toggleSubTask i t s)) = map g_completed (goals s) \<and>
   toggleSubTask i t s = s\<lparr>goals := goals (toggleSubTask i t s)\<rparr> \<and>
   (\<forall>k < length (goals s).
      goals (toggleSubTask i t s) ! k =
        (goals s ! k)\<lparr>g_subTasks := g_subTasks (goals (toggleSubTask i t s) ! k)\<rparr> \<and>
      (g_id (goals s ! k) \<noteq> i \<longrightarrow> goals (toggleSubTask i t s) ! k = goals s ! k) \<and>
      length (g_subTasks (goals (toggleSubTask i t s) ! k)) = length (g_subTasks (goals s ! k)) \<and>
      (\<forall>j < length (g_subTasks (goals s ! k)).
         g_subTasks (goals (toggleSubTask i t s) ! k) ! j =
           (g_subTasks (goals s ! k) ! j)\<lparr>st_completed :=
              st_completed (g_subTasks (goals (toggleSubTask i t s) ! k) ! j)\<rparr> \<and>
         (st_id (g_subTasks (goals s ! k) ! j) \<noteq> t \<longrightarrow>
            g_subTasks (goals (toggleSubTask i t s) ! k) ! j = g_subTasks (goals s ! k) ! j))) \<and>
   length (goals (toggleGoal i s)) = length (goals s) \<and>
   map g_subTasks (goals (toggleGoal i s)) = map g_subTasks (goals s) \<and>
   toggleGoal i s = s\<lparr>goals := goals (toggleGoal i s)\<rparr> \<and>
   (\<forall>k < length (goals s).
      goals (toggleGoal i s) ! k =
        (goals s ! k)\<lparr>g_completed := g_completed (goals (toggleGoal i s) ! k)\<rparr> \<and>
      (g_id (goals s ! k) \<noteq> i \<longrightarrow> goals (toggleGoal i s) ! k = goals s ! k))"
proof -
  have a: "map g_completed (goals (toggleSubTask i t s)) = map g_completed (goals s)"
    by (simp add: toggleSubTask_def flipSubTaskOf_def comp_def if_distrib cong: if_cong)
  have b: "map g_subTasks (goals (toggleGoal i s)) = map g_subTasks (goals s)"
    by (simp add: toggleGoal_def flipGoal_def comp_def if_distrib cong: if_cong)
  have c: "\<forall>k < length (goals s).
      goals (toggleSubTask i t s) ! k =
        (goals s ! k)\<lparr>g_subTasks := g_subTasks (goals (toggleSubTask i t s) ! k)\<rparr> \<and>
      (g_id (goals s ! k) \<noteq> i \<longrightarrow> goals (toggleSubTask i t s) ! k = goals s ! k) \<and>
      length (g_subTasks (goals (toggleSubTask i t s) ! k)) = length (g_subTasks (goals s ! k)) \<and>
      (\<forall>j < length (g_subTasks (goals s ! k)).
         g_subTasks (goals (toggleSubTask i t s) ! k) ! j =
           (g_subTasks (goals s ! k) ! j)\<lparr>st_completed :=
              st_completed (g_subTasks (goals (toggleSubTask i t s) ! k) ! j)\<rparr> \<and>
         (st_id (g_subTasks (goals s ! k) ! j) \<noteq> t \<longrightarrow>
            g_subTasks (goals (toggleSubTask i t s) ! k) ! j = g_subTasks (goals s ! k) ! j))"
    by (simp add: toggleSubTask_def flipSubTaskOf_def flipSubTask_def)
  have d: "\<forall>k < length (goals s).
      goals (toggleGoal i s) ! k =
        (goals s ! k)\<lparr>g_completed := g_completed (goals (toggleGoal i s) ! k)\<rparr> \<and>
      (g_id (goals s ! k) \<noteq> i \<longrightarrow> goals (toggleGoal i s) ! k = goals s ! k)"
    by (simp add: toggleGoal_def flipGoal_def)
  have e: "toggleSubTask i t s = s\<lparr>goals := goals (toggleSubTask i t s)\<rparr>"
    "toggleGoal i s = s\<lparr>goals := goals (toggleGoal i s)\<rparr>"
    "length (goals (toggleGoal i s)) = length (goals s)"
    "length (goals (toggleSubTask i t s)) = length (goals s)"
    by (simp_all add: toggleGoal_def toggleSubTask_def)
  show ?thesis using a b c d e by blast
qed

theorem toggle_frame_witness:
  "(0::nat) < length (goals scenario) \<and>
   (0::nat) < length (g_subTasks (goals scenario ! 0)) \<and>
   st_completed (g_subTasks (goals (toggleSubTask (str ''g1'') (str ''t1'') scenario) ! 0) ! 0) = True \<and>
   g_completed (goals (toggleSubTask (str ''g1'') (str ''t1'') scenario) ! 0) = False \<and>
   g_completed (goals scenario ! 0) = False \<and>
   g_id (goals scenario ! 0) \<noteq> str ''g9'' \<and>
   goals (toggleSubTask (str ''g9'') (str ''t1'') scenario) ! 0 = goals scenario ! 0 \<and>
   st_id (g_subTasks (goals scenario ! 0) ! 0) \<noteq> str ''t9'' \<and>
   g_subTasks (goals (toggleSubTask (str ''g1'') (str ''t9'') scenario) ! 0) ! 0 =
     g_subTasks (goals scenario ! 0) ! 0 \<and>
   g_completed (goals (toggleGoal (str ''g1'') scenario) ! 0) = True \<and>
   map g_subTasks (goals (toggleGoal (str ''g1'') scenario)) = map g_subTasks (goals scenario) \<and>
   goals (toggleGoal (str ''g9'') scenario) ! 0 = goals scenario ! 0"
  using toggle_frame [of "str ''g1''" "str ''t1''" scenario]
    toggle_frame [of "str ''g9''" "str ''t1''" scenario]
    toggle_frame [of "str ''g1''" "str ''t9''" scenario]
  by (simp add: scenario_eq str_def toggleSubTask_def toggleGoal_def flipGoal_def flipSubTaskOf_def flipSubTask_def)

subsection \<open>Runs of additions\<close>

lemma addGoal_goalInput:
  "trim title \<noteq> [] \<Longrightarrow>
     goals (addGoal rid now (goalInput title photos s)) = goalOf (title, photos, rid, now) # goals s"
  by (simp add: addGoal_def goalInput_def goalOf_def)

lemma addGoals_goals:
  "\<forall>c \<in> set cs. trim (fst c) \<noteq> [] \<Longrightarrow>
     goals (addGoals cs s) = rev (map goalOf cs) @ goals s"
proof (induction cs arbitrary: s)
  case Nil
  then show ?case by simp
next
  case (Cons c cs)
  obtain title photos rid now where c: "c = (title, photos, rid, now)"
    by (cases c) auto
  from Cons.prems c have t: "trim title \<noteq> []" by simp
  from Cons.prems have "\<forall>c \<in> set cs. trim (fst c) \<noteq> []" by simp
  then have "goals (addGoals cs (addGoal rid now (goalInput title photos s))) =
      rev (map goalOf cs) @ goals (addGoal rid now (goalInput title photos s))"
    by (rule Cons.IH)
  with t c show ?case by (simp add: addGoal_goalInput)
qed

lemma addSubTask_subTaskInput:
  "trim title \<noteq> [] \<Longrightarrow>
     goals (addSubTask i rid now (subTaskInput i title photos s)) =
       map (\<lambda>g. if g_id g = i
                 then g\<lparr>g_subTasks := g_subTasks g @ [subTaskOf (title, photos, rid, now)]\<rparr>
                 else g) (goals s)"
  by (simp add: addSubTask_def subTaskInput_def subTaskOf_def)

lemma addSubTasks_goals:
  "\<forall>c \<in> set cs. trim (fst c) \<noteq> [] \<Longrightarrow>
     goals (addSubTasks i cs s) =
       map (\<lambda>g. if g_id g = i then g\<lparr>g_subTasks := g_subTasks g @ map subTaskOf cs\<rparr> else g)
         (goals s)"
proof (induction cs arbitrary: s)
  case Nil
  have "map (\<lambda>g. if g_id g = i then g\<lparr>g_subTasks := g_subTasks g @ map subTaskOf []\<rparr> else g)
         (goals s) = goals s"
    by (rule map_idI) simp
  then show ?case by simp
next
  case (Cons c cs)
  obtain title photos rid now where c: "c = (title, photos, rid, now)"
    by (cases c) auto
  from Cons.prems c have t: "trim title \<noteq> []" by simp
  from Cons.prems have "\<forall>c \<in> set cs. trim (fst c) \<noteq> []" by simp
  then have "goals (addSubTasks i cs (addSubTask i rid now (subTaskInput i title photos s))) =
       map (\<lambda>g. if g_id g = i then g\<lparr>g_subTasks := g_subTasks g @ map subTaskOf cs\<rparr> else g)
         (goals (addSubTask i rid now (subTaskInput i title photos s)))"
    by (rule Cons.IH)
  with t c show ?case by (simp add: addSubTask_subTaskInput comp_def if_distrib cong: if_cong)
qed

lemma g_id_goalOf: "map g_id (map goalOf cs) = map ridOf cs"
  by (auto simp: goalOf_def ridOf_def)

text \<open>
  C6. A run of \<open>addGoal\<close> calls with non-blank titles puts its goals in front of the goals
  that were there, the goal of the last call first: the goal sequence is newest first, and
  \<open>addGoal("A")\<close> then \<open>addGoal("B")\<close> on the empty store gives \<open>[B, A]\<close>. A run of
  \<open>addSubTask\<close> calls with non-blank titles on one goal id puts its subtasks behind the
  subtasks that the goal had, in the order of the calls.
\<close>

theorem ordering:
  "((\<forall>c \<in> set cs. trim (fst c) \<noteq> []) \<longrightarrow>
      goals (addGoals cs s) = rev (map goalOf cs) @ goals s) \<and>
   ((\<forall>c \<in> set cs. trim (fst c) \<noteq> []) \<longrightarrow>
      goals (addSubTasks i cs s) =
        map (\<lambda>g. if g_id g = i then g\<lparr>g_subTasks := g_subTasks g @ map subTaskOf cs\<rparr> else g)
          (goals s))"
  using addGoals_goals [of cs s] addSubTasks_goals [of cs i s] by blast

theorem ordering_witness:
  "trim (str ''A'') \<noteq> [] \<and> trim (str ''B'') \<noteq> [] \<and>
   map g_title (goals (addGoals [(str ''A'', [], str ''k3x9'', 1), (str ''B'', [], str ''p07q'', 2)]
     (initial 0))) = [str ''B'', str ''A''] \<and>
   trim (str ''first'') \<noteq> [] \<and> trim (str ''second'') \<noteq> [] \<and>
   map (map st_title \<circ> g_subTasks)
     (goals (addSubTasks (str ''g1'')
        [(str ''first'', [], str ''t2'', 3), (str ''second'', [], str ''t3'', 4)] scenario)) =
     [[str ''Practice scales'', str ''first'', str ''second'']]"
  using ordering [of "[(str ''A'', [], str ''k3x9'', 1), (str ''B'', [], str ''p07q'', 2)]"
      "initial 0" "str ''g1''"]
    ordering [of "[(str ''first'', [], str ''t2'', 3), (str ''second'', [], str ''t3'', 4)]"
      scenario "str ''g1''"]
  by (simp add: scenario_eq initial_def goalOf_def subTaskOf_def trim_def is_js_space_def str_def)

subsection \<open>Saving a diary entry\<close>

lemmas example_defs = initial_def entry14_def entry15_def diary2_def jan15_def trim_def
  is_js_space_def str_def

lemma findIndex_neg_iff: "findIndex P xs < 0 \<longleftrightarrow> (\<forall>x \<in> set xs. \<not> P x)"
  by (induction xs) (auto simp: Let_def)

lemma findIndex_in_range:
  "0 \<le> findIndex P xs \<Longrightarrow> nat (findIndex P xs) < length xs \<and> P (xs ! nat (findIndex P xs))"
proof (induction xs)
  case Nil
  then show ?case by simp
next
  case (Cons x xs)
  show ?case
  proof (cases "P x")
    case True
    then show ?thesis by simp
  next
    case False
    with Cons.prems have r: "0 \<le> findIndex P xs"
      by (simp add: Let_def split: if_splits)
    then have "nat (findIndex P xs + 1) = Suc (nat (findIndex P xs))" by simp
    with False r Cons.IH show ?thesis by (simp add: Let_def)
  qed
qed

lemma findIndex_hd:
  "0 \<le> findIndex P xs \<Longrightarrow> filter P xs \<noteq> [] \<and> hd (filter P xs) = xs ! nat (findIndex P xs)"
proof (induction xs)
  case Nil
  then show ?case by simp
next
  case (Cons x xs)
  show ?case
  proof (cases "P x")
    case True
    then show ?thesis by simp
  next
    case False
    with Cons.prems have r: "0 \<le> findIndex P xs"
      by (simp add: Let_def split: if_splits)
    then have "nat (findIndex P xs + 1) = Suc (nat (findIndex P xs))" by simp
    with False r Cons.IH show ?thesis by (simp add: Let_def)
  qed
qed

lemma findIndex_first:
  "k < length xs \<Longrightarrow> P (xs ! k) \<Longrightarrow> \<forall>j < k. \<not> P (xs ! j) \<Longrightarrow> findIndex P xs = int k"
proof (induction xs arbitrary: k)
  case Nil
  then show ?case by simp
next
  case (Cons x xs)
  show ?case
  proof (cases k)
    case 0
    with Cons.prems show ?thesis by simp
  next
    case (Suc m)
    with Cons.prems have nx: "\<not> P x" by auto
    from Suc Cons.prems have "m < length xs" "P (xs ! m)" "\<forall>j < m. \<not> P (xs ! j)" by auto
    then have "findIndex P xs = int m" by (rule Cons.IH)
    with nx Suc show ?thesis by (simp add: Let_def)
  qed
qed

lemma filter_update_single:
  "k < length xs \<Longrightarrow> P (xs ! k) \<Longrightarrow> P y \<Longrightarrow> length (filter P xs) \<le> 1 \<Longrightarrow>
     filter P (xs[k := y]) = [y]"
proof (induction xs arbitrary: k)
  case Nil
  then show ?case by simp
next
  case (Cons x xs)
  show ?case
  proof (cases k)
    case 0
    with Cons.prems have "filter P xs = []" by simp
    with 0 Cons.prems show ?thesis by simp
  next
    case (Suc m)
    with Cons.prems have m: "m < length xs" "P (xs ! m)" by auto
    then have ne: "filter P xs \<noteq> []"
      by (auto simp: filter_empty_conv)
    with Cons.prems have nx: "\<not> P x" by (auto split: if_splits)
    with Cons.prems have "length (filter P xs) \<le> 1" by simp
    with m Cons.prems have "filter P (xs[m := y]) = [y]" by (intro Cons.IH)
    with nx Suc show ?thesis by simp
  qed
qed

lemma save_guard:
  "trim (diaryContent s) = [] \<Longrightarrow> tempPhotos s = [] \<Longrightarrow> saveDiaryEntry fmt rid now s = s"
  by (simp add: saveDiaryEntry_def)

lemma save_existing:
  assumes "trim (diaryContent s) \<noteq> [] \<or> tempPhotos s \<noteq> []"
    and "0 \<le> findIndex (\<lambda>e. e_date e = fmt (selectedDate s)) (diaryEntries s)"
  shows "saveDiaryEntry fmt rid now s =
     s\<lparr>diaryEntries := (diaryEntries s)
          [nat (findIndex (\<lambda>e. e_date e = fmt (selectedDate s)) (diaryEntries s)) :=
             \<lparr>e_id = e_id (diaryEntries s !
                nat (findIndex (\<lambda>e. e_date e = fmt (selectedDate s)) (diaryEntries s))),
              e_content = diaryContent s, e_photos = tempPhotos s,
              e_date = fmt (selectedDate s), e_createdAt = now\<rparr>],
       diaryContent := [], tempPhotos := []\<rparr>"
  using assms by (auto simp: saveDiaryEntry_def Let_def)

lemma save_at_first:
  assumes "trim (diaryContent s) \<noteq> [] \<or> tempPhotos s \<noteq> []"
    and "k < length (diaryEntries s)"
    and "e_date (diaryEntries s ! k) = fmt (selectedDate s)"
    and "\<forall>j < k. e_date (diaryEntries s ! j) \<noteq> fmt (selectedDate s)"
  shows "saveDiaryEntry fmt rid now s =
     s\<lparr>diaryEntries := (diaryEntries s)
          [k := \<lparr>e_id = e_id (diaryEntries s ! k), e_content = diaryContent s,
                 e_photos = tempPhotos s, e_date = fmt (selectedDate s), e_createdAt = now\<rparr>],
       diaryContent := [], tempPhotos := []\<rparr>"
proof -
  have "findIndex (\<lambda>e. e_date e = fmt (selectedDate s)) (diaryEntries s) = int k"
    using assms(2-4) by (intro findIndex_first) auto
  with save_existing [of s fmt rid now] assms(1) show ?thesis by simp
qed

lemma save_fresh:
  assumes "trim (diaryContent s) \<noteq> [] \<or> tempPhotos s \<noteq> []"
    and "\<forall>e \<in> set (diaryEntries s). e_date e \<noteq> fmt (selectedDate s)"
  shows "saveDiaryEntry fmt rid now s =
     s\<lparr>diaryEntries :=
         \<lparr>e_id = rid, e_content = diaryContent s, e_photos = tempPhotos s,
          e_date = fmt (selectedDate s), e_createdAt = now\<rparr> # diaryEntries s,
       diaryContent := [], tempPhotos := []\<rparr>"
proof -
  from assms(2) have "findIndex (\<lambda>e. e_date e = fmt (selectedDate s)) (diaryEntries s) < 0"
    by (simp add: findIndex_neg_iff)
  with assms(1) show ?thesis by (auto simp: saveDiaryEntry_def Let_def)
qed

text \<open>
  C9. \<open>saveDiaryEntry\<close> takes the content and the photos from the draft hooks
  \<open>diaryContent\<close> and \<open>tempPhotos\<close>. It returns at once, leaving the state and with it
  \<open>diaryEntries\<close> as they were, exactly when the trimmed content is empty and there is no
  photo. When either is non-empty the save proceeds: the entries then hold an entry of the
  selected date with that content, those photos and the time of the save, and the draft is
  cleared, so the state is another one.
\<close>

theorem saveDiaryEntry_guard:
  "(trim (diaryContent s) = [] \<and> tempPhotos s = [] \<longrightarrow>
      saveDiaryEntry fmt rid now s = s \<and>
      diaryEntries (saveDiaryEntry fmt rid now s) = diaryEntries s) \<and>
   (trim (diaryContent s) \<noteq> [] \<or> tempPhotos s \<noteq> [] \<longrightarrow>
      saveDiaryEntry fmt rid now s \<noteq> s \<and>
      diaryContent (saveDiaryEntry fmt rid now s) = [] \<and>
      tempPhotos (saveDiaryEntry fmt rid now s) = [] \<and>
      (\<exists>e \<in> set (diaryEntries (saveDiaryEntry fmt rid now s)).
         e_date e = fmt (selectedDate s) \<and> e_content e = diaryContent s \<and>
         e_photos e = tempPhotos s \<and> e_createdAt e = now)) \<and>
   (saveDiaryEntry fmt rid now s = s \<longleftrightarrow> trim (diaryContent s) = [] \<and> tempPhotos s = [])"
proof -
  let ?D = "fmt (selectedDate s)"
  let ?k = "findIndex (\<lambda>e. e_date e = ?D) (diaryEntries s)"
  have a: "trim (diaryContent s) = [] \<and> tempPhotos s = [] \<longrightarrow> saveDiaryEntry fmt rid now s = s"
    by (simp add: save_guard)
  have b: "saveDiaryEntry fmt rid now s \<noteq> s \<and>
      diaryContent (saveDiaryEntry fmt rid now s) = [] \<and>
      tempPhotos (saveDiaryEntry fmt rid now s) = [] \<and>
      (\<exists>e \<in> set (diaryEntries (saveDiaryEntry fmt rid now s)).
         e_date e = ?D \<and> e_content e = diaryContent s \<and>
         e_photos e = tempPhotos s \<and> e_createdAt e = now)"
    if h: "trim (diaryContent s) \<noteq> [] \<or> tempPhotos s \<noteq> []"
  proof -
    have clr: "diaryContent (saveDiaryEntry fmt rid now s) = []"
      "tempPhotos (saveDiaryEntry fmt rid now s) = []"
      using h by (auto simp: saveDiaryEntry_def Let_def)
    have ne: "saveDiaryEntry fmt rid now s \<noteq> s"
    proof
      assume "saveDiaryEntry fmt rid now s = s"
      with clr have "diaryContent s = []" "tempPhotos s = []" by simp_all
      with h show False by (simp add: trim_def)
    qed
    have ex: "\<exists>e \<in> set (diaryEntries (saveDiaryEntry fmt rid now s)).
         e_date e = ?D \<and> e_content e = diaryContent s \<and>
         e_photos e = tempPhotos s \<and> e_createdAt e = now"
    proof (cases "0 \<le> ?k")
      case True
      then have "nat ?k < length (diaryEntries s)" using findIndex_in_range [of "\<lambda>e. e_date e = ?D" "diaryEntries s"] by simp
      then have "\<lparr>e_id = e_id (diaryEntries s ! nat ?k), e_content = diaryContent s,
            e_photos = tempPhotos s, e_date = ?D, e_createdAt = now\<rparr>
          \<in> set (diaryEntries (saveDiaryEntry fmt rid now s))"
        using save_existing [of s fmt rid now] h True by (simp add: set_update_memI)
      then show ?thesis by (rule rev_bexI) simp
    next
      case False
      then have "\<forall>e \<in> set (diaryEntries s). e_date e \<noteq> ?D"
        using findIndex_neg_iff [of "\<lambda>e. e_date e = ?D" "diaryEntries s"] by simp
      then show ?thesis
        using save_fresh [of s fmt rid now] h by simp
    qed
    from clr ne ex show ?thesis by simp
  qed
  from a b show ?thesis by auto
qed

theorem saveDiaryEntry_guard_witness:
  "trim (diaryContent ((initial 0)\<lparr>diaryContent := str ''  ''\<rparr>)) = [] \<and>
   tempPhotos ((initial 0)\<lparr>diaryContent := str ''  ''\<rparr>) = [] \<and>
   saveDiaryEntry jan15 (str ''k3x9'') 10 ((initial 0)\<lparr>diaryContent := str ''  ''\<rparr>) =
     (initial 0)\<lparr>diaryContent := str ''  ''\<rparr> \<and>
   trim (diaryContent ((initial 0)\<lparr>diaryContent := str ''Practiced for an hour''\<rparr>)) \<noteq> [] \<and>
   saveDiaryEntry jan15 (str ''k3x9'') 10
       ((initial 0)\<lparr>diaryContent := str ''Practiced for an hour''\<rparr>) \<noteq>
     (initial 0)\<lparr>diaryContent := str ''Practiced for an hour''\<rparr> \<and>
   diaryEntries (saveDiaryEntry jan15 (str ''k3x9'') 10
       ((initial 0)\<lparr>diaryContent := str ''Practiced for an hour''\<rparr>)) =
     [\<lparr>e_id = str ''k3x9'', e_content = str ''Practiced for an hour'', e_photos = [],
       e_date = str ''2024-01-15'', e_createdAt = 10\<rparr>] \<and>
   tempPhotos ((initial 0)\<lparr>tempPhotos :=
       [\<lparr>p_id = str ''ph1'', p_url = str ''data:'', p_timestamp = 9\<rparr>]\<rparr>) \<noteq> [] \<and>
   diaryEntries (saveDiaryEntry jan15 (str ''k3x9'') 10
       ((initial 0)\<lparr>tempPhotos :=
          [\<lparr>p_id = str ''ph1'', p_url = str ''data:'', p_timestamp = 9\<rparr>]\<rparr>)) =
     [\<lparr>e_id = str ''k3x9'', e_content = [],
       e_photos = [\<lparr>p_id = str ''ph1'', p_url = str ''data:'', p_timestamp = 9\<rparr>],
       e_date = str ''2024-01-15'', e_createdAt = 10\<rparr>]"
  using saveDiaryEntry_guard [of "(initial 0)\<lparr>diaryContent := str ''  ''\<rparr>" jan15
      "str ''k3x9''" 10]
    saveDiaryEntry_guard [of "(initial 0)\<lparr>diaryContent := str ''Practiced for an hour''\<rparr>"
      jan15 "str ''k3x9''" 10]
    saveDiaryEntry_guard [of "(initial 0)\<lparr>tempPhotos :=
        [\<lparr>p_id = str ''ph1'', p_url = str ''data:'', p_timestamp = 9\<rparr>]\<rparr>" jan15
      "str ''k3x9''" 10]
  by (simp add: example_defs saveDiaryEntry_def Let_def)

text \<open>
  C10. When the save replaces the entry of the selected date (the first one of that date,
  at index \<open>k\<close>), the stored entry keeps the id of the original and the date they share;
  its content and photos are those of the draft and its \<open>createdAt\<close> is the time of the
  save, not the \<open>createdAt\<close> of the original.
\<close>

theorem upsert_createdAt:
  assumes "trim (diaryContent s) \<noteq> [] \<or> tempPhotos s \<noteq> []"
    and "k < length (diaryEntries s)"
    and "e_date (diaryEntries s ! k) = fmt (selectedDate s)"
    and "\<forall>j < k. e_date (diaryEntries s ! j) \<noteq> fmt (selectedDate s)"
  shows "diaryEntries (saveDiaryEntry fmt rid now s) ! k =
     \<lparr>e_id = e_id (diaryEntries s ! k), e_content = diaryContent s, e_photos = tempPhotos s,
      e_date = e_date (diaryEntries s ! k), e_createdAt = now\<rparr>"
  using assms save_at_first [of s k fmt rid now] by simp

theorem upsert_createdAt_witness:
  "trim (diaryContent (diary2\<lparr>diaryContent := str ''Practiced for two hours''\<rparr>)) \<noteq> [] \<and>
   (1::nat) < length (diaryEntries (diary2\<lparr>diaryContent := str ''Practiced for two hours''\<rparr>)) \<and>
   e_date (diaryEntries (diary2\<lparr>diaryContent := str ''Practiced for two hours''\<rparr>) ! 1) =
     jan15 (selectedDate (diary2\<lparr>diaryContent := str ''Practiced for two hours''\<rparr>)) \<and>
   e_date (diaryEntries (diary2\<lparr>diaryContent := str ''Practiced for two hours''\<rparr>) ! 0) \<noteq>
     jan15 (selectedDate (diary2\<lparr>diaryContent := str ''Practiced for two hours''\<rparr>)) \<and>
   diaryEntries (saveDiaryEntry jan15 (str ''k3x9'') 20
       (diary2\<lparr>diaryContent := str ''Practiced for two hours''\<rparr>)) ! 1 =
     \<lparr>e_id = str ''d1'', e_content = str ''Practiced for two hours'', e_photos = [],
      e_date = str ''2024-01-15'', e_createdAt = 20\<rparr> \<and>
   e_createdAt (diaryEntries (diary2\<lparr>diaryContent := str ''Practiced for two hours''\<rparr>) ! 1) = 10"
  using upsert_createdAt [of "diary2\<lparr>diaryContent := str ''Practiced for two hours''\<rparr>" 1
      jan15 "str ''k3x9''" 20]
  by (simp add: example_defs)

lemma saveEntry_unfold:
  "diaryEntries (saveEntry fmt d content photos rid now s) =
     diaryEntries (saveDiaryEntry fmt rid now
       (s\<lparr>selectedDate := d, diaryContent := content, tempPhotos := photos\<rparr>))"
  by (simp add: saveEntry_def)

lemma saveEntry_existing:
  assumes "trim content \<noteq> [] \<or> photos \<noteq> []"
    and "k < length (diaryEntries s)" and "e_date (diaryEntries s ! k) = fmt d"
    and "\<forall>j < k. e_date (diaryEntries s ! j) \<noteq> fmt d"
  shows "diaryEntries (saveEntry fmt d content photos rid now s) =
     (diaryEntries s)[k := \<lparr>e_id = e_id (diaryEntries s ! k), e_content = content,
        e_photos = photos, e_date = fmt d, e_createdAt = now\<rparr>]"
  using assms
    save_at_first [of "s\<lparr>selectedDate := d, diaryContent := content, tempPhotos := photos\<rparr>"
      k fmt rid now]
  by (simp add: saveEntry_unfold)

lemma saveEntry_fresh:
  assumes "trim content \<noteq> [] \<or> photos \<noteq> []"
    and "\<forall>e \<in> set (diaryEntries s). e_date e \<noteq> fmt d"
  shows "diaryEntries (saveEntry fmt d content photos rid now s) =
     \<lparr>e_id = rid, e_content = content, e_photos = photos, e_date = fmt d, e_createdAt = now\<rparr> #
       diaryEntries s"
  using assms
    save_fresh [of "s\<lparr>selectedDate := d, diaryContent := content, tempPhotos := photos\<rparr>"
      fmt rid now]
  by (simp add: saveEntry_unfold)

lemma first_index:
  "\<exists>x \<in> set xs. P x \<Longrightarrow> \<exists>k < length xs. P (xs ! k) \<and> (\<forall>j < k. \<not> P (xs ! j))"
proof -
  assume "\<exists>x \<in> set xs. P x"
  then have "0 \<le> findIndex P xs"
    using findIndex_neg_iff [of P xs] by auto
  with findIndex_in_range [of P xs] findIndex_hd [of P xs]
  have k: "nat (findIndex P xs) < length xs" "P (xs ! nat (findIndex P xs))" by simp_all
  have "\<forall>j < nat (findIndex P xs). \<not> P (xs ! j)"
  proof (intro allI impI notI)
    fix j assume j: "j < nat (findIndex P xs)" and p: "P (xs ! j)"
    define m where "m = (LEAST i. P (xs ! i))"
    have pm: "P (xs ! m)" unfolding m_def using p by (rule LeastI)
    have mj: "m \<le> j" unfolding m_def using p by (rule Least_le)
    have "\<forall>i < m. \<not> P (xs ! i)" unfolding m_def using not_less_Least by blast
    with pm mj j k have "findIndex P xs = int m"
      by (intro findIndex_first) auto
    with mj j show False by simp
  qed
  with k show ?thesis by blast
qed

lemma save_step:
  assumes nb: "trim content \<noteq> [] \<or> photos \<noteq> []"
    and one: "length (entriesOn (fmt d) s) \<le> 1"
  shows "entriesOn (fmt d) (saveEntry fmt d content photos rid now s) =
     [\<lparr>e_id = (case entriesOn (fmt d) s of [] \<Rightarrow> rid | e # _ \<Rightarrow> e_id e), e_content = content,
       e_photos = photos, e_date = fmt d, e_createdAt = now\<rparr>]"
proof (cases "\<exists>e \<in> set (diaryEntries s). e_date e = fmt d")
  case False
  then have none: "\<forall>e \<in> set (diaryEntries s). e_date e \<noteq> fmt d" by simp
  then have "filter (\<lambda>e. e_date e = fmt d) (diaryEntries s) = []"
    by (simp add: filter_empty_conv)
  with saveEntry_fresh [of content photos s fmt d rid now] nb none show ?thesis
    by (simp add: entriesOn_def)
next
  case True
  then obtain k where k: "k < length (diaryEntries s)" "e_date (diaryEntries s ! k) = fmt d"
    "\<forall>j < k. e_date (diaryEntries s ! j) \<noteq> fmt d"
    using first_index [of "diaryEntries s" "\<lambda>e. e_date e = fmt d"] by auto
  then have fi: "findIndex (\<lambda>e. e_date e = fmt d) (diaryEntries s) = int k"
    by (intro findIndex_first) auto
  with findIndex_hd [of "\<lambda>e. e_date e = fmt d" "diaryEntries s"]
  have hd: "entriesOn (fmt d) s \<noteq> []" "hd (entriesOn (fmt d) s) = diaryEntries s ! k"
    by (simp_all add: entriesOn_def)
  then have cs: "(case entriesOn (fmt d) s of [] \<Rightarrow> rid | e # _ \<Rightarrow> e_id e) =
      e_id (diaryEntries s ! k)"
    by (cases "entriesOn (fmt d) s") simp_all
  let ?new = "\<lparr>e_id = e_id (diaryEntries s ! k), e_content = content,
        e_photos = photos, e_date = fmt d, e_createdAt = now\<rparr>"
  have "filter (\<lambda>e. e_date e = fmt d) ((diaryEntries s)[k := ?new]) = [?new]"
    using k one by (intro filter_update_single) (simp_all add: entriesOn_def)
  with saveEntry_existing [of content photos k s fmt d rid now] nb k cs show ?thesis
    by (simp add: entriesOn_def)
qed

lemma saveEntries_keep_id:
  "\<forall>c \<in> set cs. trim (fst c) \<noteq> [] \<or> fst (snd c) \<noteq> [] \<Longrightarrow>
     entriesOn (fmt d) s = [e] \<Longrightarrow>
     map e_id (entriesOn (fmt d) (saveEntries fmt d cs s)) = [e_id e]"
proof (induction cs arbitrary: s e)
  case Nil
  then show ?case by simp
next
  case (Cons c cs)
  obtain content photos rid now where c: "c = (content, photos, rid, now)"
    by (cases c) auto
  from Cons.prems c have nb: "trim content \<noteq> [] \<or> photos \<noteq> []" by simp
  from Cons.prems have one: "length (entriesOn (fmt d) s) \<le> 1" by simp
  from save_step [of content photos fmt d s rid now] nb one Cons.prems(2)
  have step: "entriesOn (fmt d) (saveEntry fmt d content photos rid now s) =
      [\<lparr>e_id = e_id e, e_content = content, e_photos = photos, e_date = fmt d,
        e_createdAt = now\<rparr>]"
    by simp
  from Cons.prems have rest: "\<forall>c \<in> set cs. trim (fst c) \<noteq> [] \<or> fst (snd c) \<noteq> []" by simp
  from Cons.IH [OF rest step] c show ?case by simp
qed

lemma saveEntries_one:
  assumes ne: "cs \<noteq> []"
    and nb: "\<forall>c \<in> set cs. trim (fst c) \<noteq> [] \<or> fst (snd c) \<noteq> []"
    and one: "length (entriesOn (fmt d) s) \<le> 1"
  shows "map e_id (entriesOn (fmt d) (saveEntries fmt d cs s)) =
     [case entriesOn (fmt d) s of [] \<Rightarrow> ridOf (hd cs) | e # _ \<Rightarrow> e_id e]"
proof -
  from ne obtain c cs' where cs: "cs = c # cs'" by (cases cs) auto
  obtain content photos rid now where c: "c = (content, photos, rid, now)"
    by (cases c) auto
  from nb cs c have nb1: "trim content \<noteq> [] \<or> photos \<noteq> []" by simp
  from nb cs have rest: "\<forall>c \<in> set cs'. trim (fst c) \<noteq> [] \<or> fst (snd c) \<noteq> []" by simp
  have step: "entriesOn (fmt d) (saveEntry fmt d content photos rid now s) =
     [\<lparr>e_id = (case entriesOn (fmt d) s of [] \<Rightarrow> rid | e # _ \<Rightarrow> e_id e), e_content = content,
       e_photos = photos, e_date = fmt d, e_createdAt = now\<rparr>]"
    using nb1 one by (rule save_step)
  from saveEntries_keep_id [of cs' fmt d "saveEntry fmt d content photos rid now s", OF rest step] cs c
  show ?thesis by (simp add: ridOf_def split: list.split)
qed

lemma save_dates:
  "map e_date (diaryEntries (saveDiaryEntry fmt rid now s)) =
     (if (trim (diaryContent s) = [] \<and> tempPhotos s = []) \<or>
         fmt (selectedDate s) \<in> e_date ` set (diaryEntries s)
      then map e_date (diaryEntries s)
      else fmt (selectedDate s) # map e_date (diaryEntries s))"
proof (cases "trim (diaryContent s) = [] \<and> tempPhotos s = []")
  case True
  then show ?thesis by (simp add: save_guard)
next
  case False
  then have nb: "trim (diaryContent s) \<noteq> [] \<or> tempPhotos s \<noteq> []" by simp
  let ?P = "\<lambda>e. e_date e = fmt (selectedDate s)"
  show ?thesis
  proof (cases "0 \<le> findIndex ?P (diaryEntries s)")
    case True
    with findIndex_in_range [of ?P "diaryEntries s"]
    have k: "nat (findIndex ?P (diaryEntries s)) < length (diaryEntries s)"
      "e_date (diaryEntries s ! nat (findIndex ?P (diaryEntries s))) = fmt (selectedDate s)"
      by simp_all
    then have mem: "fmt (selectedDate s) \<in> e_date ` set (diaryEntries s)"
      by (metis imageI nth_mem)
    from k have "(map e_date (diaryEntries s))
        [nat (findIndex ?P (diaryEntries s)) := fmt (selectedDate s)] = map e_date (diaryEntries s)"
      by (metis list_update_id map_update)
    with save_existing [of s fmt rid now] nb True mem show ?thesis
      by (simp add: map_update)
  next
    case False
    then have none: "\<forall>e \<in> set (diaryEntries s). e_date e \<noteq> fmt (selectedDate s)"
      using findIndex_neg_iff [of ?P "diaryEntries s"] by simp
    then have "fmt (selectedDate s) \<notin> e_date ` set (diaryEntries s)" by auto
    with save_fresh [of s fmt rid now] nb none show ?thesis by simp
  qed
qed

lemma saveEntry_distinct:
  "distinct (map e_date (diaryEntries s)) \<Longrightarrow>
     distinct (map e_date (diaryEntries (saveEntry fmt d content photos rid now s)))"
  by (simp add: saveEntry_unfold save_dates)

text \<open>
  C2. A save with non-empty content or photos for a date \<open>D\<close> that has an entry replaces
  that entry where it stands: same id, same index, content and photos overwritten, every
  other entry untouched. Only when \<open>D\<close> has no entry is a new entry, with the generated
  id, put in front of the sequence. So in a store with at most one entry for \<open>D\<close>, any
  number of such saves, at least one, leaves exactly one entry for \<open>D\<close>, and its id is
  the id of the entry that was there, or else the id generated by the first save. A store
  with at most one entry for each date stays so under every save.
\<close>

theorem upsert:
  "(fmt d = D \<and> (trim content \<noteq> [] \<or> photos \<noteq> []) \<and> k < length (diaryEntries s) \<and>
    e_date (diaryEntries s ! k) = D \<and> (\<forall>j < k. e_date (diaryEntries s ! j) \<noteq> D) \<longrightarrow>
      diaryEntries (saveEntry fmt d content photos rid now s) =
        (diaryEntries s)[k := \<lparr>e_id = e_id (diaryEntries s ! k), e_content = content,
           e_photos = photos, e_date = D, e_createdAt = now\<rparr>]) \<and>
   (fmt d = D \<and> (trim content \<noteq> [] \<or> photos \<noteq> []) \<and>
    (\<forall>e \<in> set (diaryEntries s). e_date e \<noteq> D) \<longrightarrow>
      diaryEntries (saveEntry fmt d content photos rid now s) =
        \<lparr>e_id = rid, e_content = content, e_photos = photos, e_date = D, e_createdAt = now\<rparr> #
          diaryEntries s) \<and>
   (fmt d = D \<and> cs \<noteq> [] \<and> (\<forall>c \<in> set cs. trim (fst c) \<noteq> [] \<or> fst (snd c) \<noteq> []) \<and>
    length (entriesOn D s) \<le> 1 \<longrightarrow>
      length (entriesOn D (saveEntries fmt d cs s)) = 1 \<and>
      map e_id (entriesOn D (saveEntries fmt d cs s)) =
        [case entriesOn D s of [] \<Rightarrow> ridOf (hd cs) | e # _ \<Rightarrow> e_id e]) \<and>
   (distinct (map e_date (diaryEntries s)) \<longrightarrow>
      distinct (map e_date (diaryEntries (saveEntry fmt d content photos rid now s))))"
proof (intro conjI impI)
  assume "fmt d = D \<and> (trim content \<noteq> [] \<or> photos \<noteq> []) \<and> k < length (diaryEntries s) \<and>
    e_date (diaryEntries s ! k) = D \<and> (\<forall>j < k. e_date (diaryEntries s ! j) \<noteq> D)"
  then show "diaryEntries (saveEntry fmt d content photos rid now s) =
        (diaryEntries s)[k := \<lparr>e_id = e_id (diaryEntries s ! k), e_content = content,
           e_photos = photos, e_date = D, e_createdAt = now\<rparr>]"
    using saveEntry_existing [of content photos k s fmt d rid now] by auto
next
  assume "fmt d = D \<and> (trim content \<noteq> [] \<or> photos \<noteq> []) \<and>
    (\<forall>e \<in> set (diaryEntries s). e_date e \<noteq> D)"
  then show "diaryEntries (saveEntry fmt d content photos rid now s) =
        \<lparr>e_id = rid, e_content = content, e_photos = photos, e_date = D, e_createdAt = now\<rparr> #
          diaryEntries s"
    using saveEntry_fresh [of content photos s fmt d rid now] by auto
next
  assume h: "fmt d = D \<and> cs \<noteq> [] \<and>
    (\<forall>c \<in> set cs. trim (fst c) \<noteq> [] \<or> fst (snd c) \<noteq> []) \<and> length (entriesOn D s) \<le> 1"
  then show ids: "map e_id (entriesOn D (saveEntries fmt d cs s)) =
        [case entriesOn D s of [] \<Rightarrow> ridOf (hd cs) | e # _ \<Rightarrow> e_id e]"
    using saveEntries_one [of cs fmt d s] by auto
  have "length (map e_id (entriesOn D (saveEntries fmt d cs s))) = 1"
    by (simp only: ids list.size One_nat_def)
  then show "length (entriesOn D (saveEntries fmt d cs s)) = 1" by simp
next
  assume "distinct (map e_date (diaryEntries s))"
  then show "distinct (map e_date (diaryEntries (saveEntry fmt d content photos rid now s)))"
    by (rule saveEntry_distinct)
qed

theorem upsert_witness:
  "jan15 0 = str ''2024-01-15'' \<and>
   trim (str ''Practiced for two hours'') \<noteq> [] \<and>
   (1::nat) < length (diaryEntries diary2) \<and>
   e_date (diaryEntries diary2 ! 1) = str ''2024-01-15'' \<and>
   e_date (diaryEntries diary2 ! 0) \<noteq> str ''2024-01-15'' \<and>
   diaryEntries (saveEntry jan15 0 (str ''Practiced for two hours'') [] (str ''k3x9'') 20 diary2) =
     [entry14, entry15\<lparr>e_content := str ''Practiced for two hours'', e_createdAt := 20\<rparr>] \<and>
   trim (str ''Practiced for an hour'') \<noteq> [] \<and>
   diaryEntries (initial 0) = [] \<and>
   diaryEntries (saveEntry jan15 0 (str ''Practiced for an hour'') [] (str ''k3x9'') 10
       (initial 0)) =
     [\<lparr>e_id = str ''k3x9'', e_content = str ''Practiced for an hour'', e_photos = [],
       e_date = str ''2024-01-15'', e_createdAt = 10\<rparr>] \<and>
   length (entriesOn (str ''2024-01-15'') (initial 0)) = 0 \<and>
   length (entriesOn (str ''2024-01-15'')
     (saveEntries jan15 0
        [(str ''Practiced for an hour'', [], str ''k3x9'', 10),
         (str ''Practiced for two hours'', [], str ''p07q'', 20)] (initial 0))) = 1 \<and>
   map e_id (entriesOn (str ''2024-01-15'')
     (saveEntries jan15 0
        [(str ''Practiced for an hour'', [], str ''k3x9'', 10),
         (str ''Practiced for two hours'', [], str ''p07q'', 20)] (initial 0))) = [str ''k3x9''] \<and>
   distinct (map e_date (diaryEntries diary2)) \<and>
   distinct (map e_date (diaryEntries
     (saveEntry jan15 0 (str ''Practiced for two hours'') [] (str ''k3x9'') 20 diary2)))"
  using upsert [of jan15 0 "str ''2024-01-15''" "str ''Practiced for two hours''" "[]" 1 diary2
      "str ''k3x9''" 20 "[]"]
    upsert [of jan15 0 "str ''2024-01-15''" "str ''Practiced for an hour''" "[]" 0 "initial 0"
      "str ''k3x9''" 10
      "[(str ''Practiced for an hour'', [], str ''k3x9'', 10),
        (str ''Practiced for two hours'', [], str ''p07q'', 20)]"]
  by (simp add: example_defs entriesOn_def ridOf_def)

subsection \<open>Removing a photo\<close>

lemma photoStore_eq:
  "photoStore =
     \<lparr>goals =
        [\<lparr>g_id = str ''g1'', g_title = str ''Learn piano'', g_completed = False,
          g_photos = [photo ''ph1''],
          g_subTasks =
            [\<lparr>st_id = str ''t1'', st_title = str ''Practice scales'', st_completed = False,
              st_photos = [photo ''ph2''], st_createdAt = 2\<rparr>],
          g_createdAt = 1\<rparr>],
      diaryEntries = [], isSubscribed = False, selectedDate = 0, newGoalTitle = [],
      diaryContent = [], tempPhotos = [photo ''ph3''], subTaskInputs = [str ''g1'' \<mapsto> []],
      subTaskPhotos = [str ''g1'' \<mapsto> [photo ''ph4'']]\<rparr>"
  by (simp add: photoStore_def initial_def addGoal_def goalInput_def addSubTask_def
      subTaskInput_def trim_def is_js_space_def str_def)

lemma removeTemp_result:
  "removePhoto Pending pid s = Inr (s\<lparr>tempPhotos := filter (\<lambda>p. p_id p \<noteq> pid) (tempPhotos s)\<rparr>)"
proof (cases "pid \<in> p_id ` set (tempPhotos s)")
  case True
  then show ?thesis by (simp add: removePhoto_def PhotoGrid_def removeTempPhoto_def)
next
  case False
  then have "filter (\<lambda>p. p_id p \<noteq> pid) (tempPhotos s) = tempPhotos s"
    by (auto simp: filter_id_conv)
  with False show ?thesis by (simp add: removePhoto_def PhotoGrid_def)
qed

lemma removeSub_result:
  "g \<in> g_id ` set (goals s) \<Longrightarrow>
   removePhoto (PendingSubTask g) pid s =
     Inr (case subTaskPhotos s g of
            None \<Rightarrow> s
          | Some ps \<Rightarrow> s\<lparr>subTaskPhotos := (subTaskPhotos s)(g \<mapsto> filter (\<lambda>p. p_id p \<noteq> pid) ps)\<rparr>)"
proof (cases "subTaskPhotos s g")
  case None
  then show ?thesis by (simp add: removePhoto_def)
next
  case (Some ps)
  assume g: "g \<in> g_id ` set (goals s)"
  show ?thesis
  proof (cases "pid \<in> p_id ` set ps")
    case True
    then have "ps \<noteq> []" by auto
    with True Some g show ?thesis
      by (simp add: removePhoto_def PhotoGrid_def removeSubTaskPhoto_def)
  next
    case False
    then have "filter (\<lambda>p. p_id p \<noteq> pid) ps = ps"
      by (auto simp: filter_id_conv)
    moreover from Some have "(subTaskPhotos s)(g \<mapsto> ps) = subTaskPhotos s"
      by (rule map_upd_triv)
    ultimately show ?thesis using False Some g
      by (simp add: removePhoto_def PhotoGrid_def)
  qed
qed

text \<open>
  C3, as the code has it. Removing a photo id from the pending photos, or from the pending
  subtask photos of a goal of the goal sequence, leaves in that collection the photos with
  another id, in their order, and changes neither the goals nor the diary entries. The
  photos of a stored goal and of a stored subtask cannot be removed: their grids have no
  handler, and the state stays as it is.
\<close>

theorem removePhoto_spec:
  "(\<exists>s'. removePhoto Pending pid s = Inr s' \<and>
      photosOf Pending s' = filter (\<lambda>p. p_id p \<noteq> pid) (photosOf Pending s) \<and>
      pid \<notin> p_id ` set (photosOf Pending s') \<and>
      goals s' = goals s \<and> diaryEntries s' = diaryEntries s) \<and>
   (g \<in> g_id ` set (goals s) \<longrightarrow>
      (\<exists>s'. removePhoto (PendingSubTask g) pid s = Inr s' \<and>
         photosOf (PendingSubTask g) s' =
           filter (\<lambda>p. p_id p \<noteq> pid) (photosOf (PendingSubTask g) s) \<and>
         pid \<notin> p_id ` set (photosOf (PendingSubTask g) s') \<and>
         goals s' = goals s \<and> diaryEntries s' = diaryEntries s)) \<and>
   removePhoto (GoalPhotos g) pid s = Inr s \<and>
   removePhoto (SubTaskPhotos g t) pid s = Inr s"
proof (intro conjI impI)
  show "\<exists>s'. removePhoto Pending pid s = Inr s' \<and>
      photosOf Pending s' = filter (\<lambda>p. p_id p \<noteq> pid) (photosOf Pending s) \<and>
      pid \<notin> p_id ` set (photosOf Pending s') \<and>
      goals s' = goals s \<and> diaryEntries s' = diaryEntries s"
    by (auto simp: removeTemp_result photosOf_def)
  show "\<exists>s'. removePhoto (PendingSubTask g) pid s = Inr s' \<and>
      photosOf (PendingSubTask g) s' =
        filter (\<lambda>p. p_id p \<noteq> pid) (photosOf (PendingSubTask g) s) \<and>
      pid \<notin> p_id ` set (photosOf (PendingSubTask g) s') \<and>
      goals s' = goals s \<and> diaryEntries s' = diaryEntries s"
    if "g \<in> g_id ` set (goals s)"
    using that by (cases "subTaskPhotos s g") (auto simp: removeSub_result photosOf_def)
  show "removePhoto (GoalPhotos g) pid s = Inr s"
    by (simp add: removePhoto_def PhotoGrid_def)
  show "removePhoto (SubTaskPhotos g t) pid s = Inr s"
    by (simp add: removePhoto_def PhotoGrid_def)
qed

theorem removePhoto_spec_witness:
  "removePhoto Pending (str ''ph3'') photoStore = Inr (photoStore\<lparr>tempPhotos := []\<rparr>) \<and>
   str ''g1'' \<in> g_id ` set (goals photoStore) \<and>
   removePhoto (PendingSubTask (str ''g1'')) (str ''ph4'') photoStore =
     Inr (photoStore\<lparr>subTaskPhotos := [str ''g1'' \<mapsto> []]\<rparr>) \<and>
   goals (photoStore\<lparr>tempPhotos := []\<rparr>) = goals photoStore \<and>
   removePhoto (GoalPhotos (str ''g1'')) (str ''ph1'') photoStore = Inr photoStore"
  using removePhoto_spec [of "str ''ph3''" photoStore "str ''g1''" "str ''t1''"]
    removePhoto_spec [of "str ''ph4''" photoStore "str ''g1''" "str ''t1''"]
    removePhoto_spec [of "str ''ph1''" photoStore "str ''g1''" "str ''t1''"]
  by (simp add: removePhoto_def PhotoGrid_def photosOf_def photoStore_eq photo_def str_def
      removeTempPhoto_def removeSubTaskPhoto_def)

text \<open>
  C3 as it is stated fails on the stored collections: the photo \<open>ph1\<close> of the goal and the
  photo \<open>ph2\<close> of its subtask are still there after their removal was asked for.
\<close>

theorem removePhoto_counterexample:
  "removePhoto (GoalPhotos (str ''g1'')) (str ''ph1'') photoStore = Inr photoStore \<and>
   str ''ph1'' \<in> p_id ` set (photosOf (GoalPhotos (str ''g1'')) photoStore) \<and>
   removePhoto (SubTaskPhotos (str ''g1'') (str ''t1'')) (str ''ph2'') photoStore = Inr photoStore \<and>
   str ''ph2'' \<in> p_id ` set (photosOf (SubTaskPhotos (str ''g1'') (str ''t1'')) photoStore)"
  by (simp add: removePhoto_def PhotoGrid_def photosOf_def photoStore_eq photo_def str_def)


subsection \<open>Loading\<close>

lemma hydrate_eq:
  "hydrate parse (localStorage (str key)) setter s =
     (case stored localStorage key of
        None \<Rightarrow> Inr s
      | Some t \<Rightarrow> (case parse t of Inl e \<Rightarrow> Inl e | Inr v \<Rightarrow> Inr (setter v s)))"
  by (cases "localStorage (str key)") (simp_all add: stored_def)

text \<open>
  C1, as the code has it. When none of the three stored texts is unparseable, the load
  effect ends with each slice at the parsed value of its text, or at the value it had (the
  empty default on startup) when its key is missing or holds the empty string: a missing
  slice does not stop the others. When any of the three texts is unparseable, \<open>JSON.parse\<close>
  throws and the effect ends with that error instead of a state: the slice is not reset to
  its default, the failure is not hidden, and the lines after the one that threw do not run.
\<close>

theorem load_spec:
  "(unparseable parseGoals (stored ls ''chronicle_goals'') \<longrightarrow>
      isl (load parseGoals parseDiary parseSub ls s)) \<and>
   (unparseable parseDiary (stored ls ''chronicle_diary'') \<longrightarrow>
      isl (load parseGoals parseDiary parseSub ls s)) \<and>
   (unparseable parseSub (stored ls ''chronicle_sub'') \<longrightarrow>
      isl (load parseGoals parseDiary parseSub ls s)) \<and>
   (\<not> unparseable parseGoals (stored ls ''chronicle_goals'') \<and>
    \<not> unparseable parseDiary (stored ls ''chronicle_diary'') \<and>
    \<not> unparseable parseSub (stored ls ''chronicle_sub'') \<longrightarrow>
      load parseGoals parseDiary parseSub ls s =
        Inr (s\<lparr>goals := valueOr parseGoals (stored ls ''chronicle_goals'') (goals s),
               diaryEntries := valueOr parseDiary (stored ls ''chronicle_diary'') (diaryEntries s),
               isSubscribed := valueOr parseSub (stored ls ''chronicle_sub'') (isSubscribed s)\<rparr>))"
  by (auto simp: load_def hydrate_eq unparseable_def valueOr_def Let_def
      split: option.splits sum.splits)

theorem load_spec_witness:
  "unparseable (parseOnly (str ''[]'') ([] :: BigGoal list))
     (stored [str ''chronicle_goals'' \<mapsto> str ''{'', str ''chronicle_sub'' \<mapsto> str ''true'']
        ''chronicle_goals'') \<and>
   isl (load (parseOnly (str ''[]'') []) (parseOnly (str ''[]'') []) (parseOnly (str ''true'') True)
     [str ''chronicle_goals'' \<mapsto> str ''{'', str ''chronicle_sub'' \<mapsto> str ''true'']
     (initial 0)) \<and>
   \<not> unparseable (parseOnly (str ''[]'') ([] :: BigGoal list))
     (stored [str ''chronicle_goals'' \<mapsto> [], str ''chronicle_sub'' \<mapsto> str ''true'']
        ''chronicle_goals'') \<and>
   \<not> unparseable (parseOnly (str ''[]'') ([] :: DiaryEntry list))
     (stored [str ''chronicle_goals'' \<mapsto> [], str ''chronicle_sub'' \<mapsto> str ''true'']
        ''chronicle_diary'') \<and>
   \<not> unparseable (parseOnly (str ''true'') True)
     (stored [str ''chronicle_goals'' \<mapsto> [], str ''chronicle_sub'' \<mapsto> str ''true'']
        ''chronicle_sub'') \<and>
   load (parseOnly (str ''[]'') []) (parseOnly (str ''[]'') []) (parseOnly (str ''true'') True)
     [str ''chronicle_goals'' \<mapsto> [], str ''chronicle_sub'' \<mapsto> str ''true'']
     (initial 0) = Inr ((initial 0)\<lparr>isSubscribed := True\<rparr>)"
  using load_spec [of "parseOnly (str ''[]'') []"
      "[str ''chronicle_goals'' \<mapsto> str ''{'', str ''chronicle_sub'' \<mapsto> str ''true'']"
      "parseOnly (str ''[]'') []" "parseOnly (str ''true'') True" "initial 0"]
    load_spec [of "parseOnly (str ''[]'') []"
      "[str ''chronicle_goals'' \<mapsto> [], str ''chronicle_sub'' \<mapsto> str ''true'']"
      "parseOnly (str ''[]'') []" "parseOnly (str ''true'') True" "initial 0"]
  by (simp add: parseOnly_def unparseable_def valueOr_def stored_def str_def initial_def)

text \<open>
  C1 as it is stated fails on an unparseable text: with \<open>{\<close> stored for the goals and
  \<open>true\<close> for the subscription, the effect throws a SyntaxError, where the claim has the
  goals reset to \<open>[]\<close> and the subscription loaded.
\<close>

theorem load_counterexample:
  "unparseable (parseOnly (str ''[]'') ([] :: BigGoal list))
     (stored [str ''chronicle_goals'' \<mapsto> str ''{'', str ''chronicle_sub'' \<mapsto> str ''true'']
        ''chronicle_goals'') \<and>
   load (parseOnly (str ''[]'') []) (parseOnly (str ''[]'') []) (parseOnly (str ''true'') True)
     [str ''chronicle_goals'' \<mapsto> str ''{'', str ''chronicle_sub'' \<mapsto> str ''true'']
     (initial 0) = Inl SyntaxError \<and>
   load (parseOnly (str ''[]'') []) (parseOnly (str ''[]'') []) (parseOnly (str ''true'') True)
     [str ''chronicle_goals'' \<mapsto> str ''{'', str ''chronicle_sub'' \<mapsto> str ''true'']
     (initial 0) \<noteq> Inr ((initial 0)\<lparr>isSubscribed := True\<rparr>)"
  by (simp add: load_def parseOnly_def unparseable_def stored_def str_def)

subsection \<open>Identifiers\<close>

lemma toggleGoal_ids: "map g_id (goals (toggleGoal i s)) = map g_id (goals s)"
  by (simp add: toggleGoal_def flipGoal_def comp_def if_distrib cong: if_cong)

lemma toggleSubTask_ids: "map g_id (goals (toggleSubTask i t s)) = map g_id (goals s)"
  by (simp add: toggleSubTask_def flipSubTaskOf_def comp_def if_distrib cong: if_cong)

lemma deleteSubTask_ids: "map g_id (goals (deleteSubTask i t s)) = map g_id (goals s)"
  by (simp add: deleteSubTask_def dropSubTaskOf_def comp_def if_distrib cong: if_cong)

lemma addSubTask_ids: "map g_id (goals (addSubTask i rid now s)) = map g_id (goals s)"
  by (simp add: addSubTask_def Let_def comp_def if_distrib split: option.splits cong: if_cong)

lemma deleteGoal_ids:
  "map g_id (goals (deleteGoal i s)) = filter (\<lambda>x. x \<noteq> i) (map g_id (goals s))"
  by (simp add: deleteGoal_def filter_map comp_def)

lemma saveDiaryEntry_goals: "goals (saveDiaryEntry fmt rid now s) = goals s"
  by (simp add: saveDiaryEntry_def Let_def)

lemma addSubTask_subtask_ids:
  assumes "subTaskInputs s i = Some title" and "trim title \<noteq> []"
    and "k < length (goals s)" and "g_id (goals s ! k) = i"
  shows "map st_id (g_subTasks (goals (addSubTask i rid now s) ! k)) =
     map st_id (g_subTasks (goals s ! k)) @ [rid]"
  using assms by (simp add: addSubTask_def Let_def)

lemma save_ids:
  assumes "trim (diaryContent s) \<noteq> [] \<or> tempPhotos s \<noteq> []"
  shows "map e_id (diaryEntries (saveDiaryEntry fmt rid now s)) =
     (if fmt (selectedDate s) \<in> e_date ` set (diaryEntries s)
      then map e_id (diaryEntries s)
      else rid # map e_id (diaryEntries s))"
proof -
  let ?P = "\<lambda>e. e_date e = fmt (selectedDate s)"
  show ?thesis
  proof (cases "0 \<le> findIndex ?P (diaryEntries s)")
    case True
    with findIndex_in_range [of ?P "diaryEntries s"]
    have k: "nat (findIndex ?P (diaryEntries s)) < length (diaryEntries s)"
      "e_date (diaryEntries s ! nat (findIndex ?P (diaryEntries s))) = fmt (selectedDate s)"
      by simp_all
    then have mem: "fmt (selectedDate s) \<in> e_date ` set (diaryEntries s)"
      by (metis imageI nth_mem)
    from k have "(map e_id (diaryEntries s))
        [nat (findIndex ?P (diaryEntries s)) :=
           e_id (diaryEntries s ! nat (findIndex ?P (diaryEntries s)))] =
        map e_id (diaryEntries s)"
      by (metis list_update_id map_update)
    with save_existing [of s fmt rid now] assms True mem show ?thesis
      by (simp add: map_update)
  next
    case False
    then have none: "\<forall>e \<in> set (diaryEntries s). e_date e \<noteq> fmt (selectedDate s)"
      using findIndex_neg_iff [of ?P "diaryEntries s"] by simp
    then have "fmt (selectedDate s) \<notin> e_date ` set (diaryEntries s)" by auto
    with save_fresh [of s fmt rid now] assms none show ?thesis by simp
  qed
qed

text \<open>
  C4, as the code has it. The id of a new goal is the value that \<open>Math.random\<close> gave, and
  nothing compares it with the ids in use. After a run of N \<open>addGoal\<close> calls with non-blank
  titles the goal sequence has N more goals, and its ids are the N generated ids, the last
  one first, followed by the ids that were there. They are pairwise distinct exactly when the
  generated ids are pairwise distinct, the ids that were there are pairwise distinct, and no
  generated id was in use. Every other handler keeps the ids of the goal sequence, and
  \<open>deleteGoal\<close> takes the deleted id out of them. In the same way a new subtask brings its
  generated id to the end of the ids of its goal's subtasks, and a save either keeps the ids
  of the diary entries (the date has an entry) or puts its generated id in front of them.
\<close>

theorem goal_ids:
  "((\<forall>c \<in> set cs. trim (fst c) \<noteq> []) \<longrightarrow>
     length (goals (addGoals cs s)) = length cs + length (goals s) \<and>
     map g_id (goals (addGoals cs s)) = rev (map ridOf cs) @ map g_id (goals s) \<and>
     (distinct (map g_id (goals (addGoals cs s))) \<longleftrightarrow>
        distinct (map ridOf cs) \<and> distinct (map g_id (goals s)) \<and>
        set (map ridOf cs) \<inter> set (map g_id (goals s)) = {})) \<and>
   map g_id (goals (toggleGoal i s)) = map g_id (goals s) \<and>
   map g_id (goals (toggleSubTask i t s)) = map g_id (goals s) \<and>
   map g_id (goals (addSubTask i rid now s)) = map g_id (goals s) \<and>
   map g_id (goals (deleteSubTask i t s)) = map g_id (goals s) \<and>
   map g_id (goals (deleteGoal i s)) = filter (\<lambda>x. x \<noteq> i) (map g_id (goals s)) \<and>
   goals (saveDiaryEntry fmt rid now s) = goals s \<and>
   (subTaskInputs s i = Some title \<and> trim title \<noteq> [] \<and> k < length (goals s) \<and>
    g_id (goals s ! k) = i \<longrightarrow>
      map st_id (g_subTasks (goals (addSubTask i rid now s) ! k)) =
        map st_id (g_subTasks (goals s ! k)) @ [rid]) \<and>
   (trim (diaryContent s) \<noteq> [] \<or> tempPhotos s \<noteq> [] \<longrightarrow>
      map e_id (diaryEntries (saveDiaryEntry fmt rid now s)) =
        (if fmt (selectedDate s) \<in> e_date ` set (diaryEntries s)
         then map e_id (diaryEntries s)
         else rid # map e_id (diaryEntries s)))"
proof -
  have run: "length (goals (addGoals cs s)) = length cs + length (goals s) \<and>
     map g_id (goals (addGoals cs s)) = rev (map ridOf cs) @ map g_id (goals s) \<and>
     (distinct (map g_id (goals (addGoals cs s))) \<longleftrightarrow>
        distinct (map ridOf cs) \<and> distinct (map g_id (goals s)) \<and>
        set (map ridOf cs) \<inter> set (map g_id (goals s)) = {})"
    if h: "\<forall>c \<in> set cs. trim (fst c) \<noteq> []"
  proof -
    have g: "goals (addGoals cs s) = rev (map goalOf cs) @ goals s"
      using h by (rule addGoals_goals)
    have ids: "map g_id (goals (addGoals cs s)) = rev (map ridOf cs) @ map g_id (goals s)"
      by (simp add: g rev_map [symmetric] g_id_goalOf del: map_map)
    have "distinct (rev (map ridOf cs) @ map g_id (goals s)) \<longleftrightarrow>
        distinct (map ridOf cs) \<and> distinct (map g_id (goals s)) \<and>
        set (map ridOf cs) \<inter> set (map g_id (goals s)) = {}"
      by (simp only: distinct_append distinct_rev set_rev)
    with ids g show ?thesis by simp
  qed
  have sub: "map st_id (g_subTasks (goals (addSubTask i rid now s) ! k)) =
        map st_id (g_subTasks (goals s ! k)) @ [rid]"
    if "subTaskInputs s i = Some title \<and> trim title \<noteq> [] \<and> k < length (goals s) \<and>
      g_id (goals s ! k) = i"
    using that addSubTask_subtask_ids [of s i title k rid now] by simp
  have diary: "map e_id (diaryEntries (saveDiaryEntry fmt rid now s)) =
        (if fmt (selectedDate s) \<in> e_date ` set (diaryEntries s)
         then map e_id (diaryEntries s)
         else rid # map e_id (diaryEntries s))"
    if "trim (diaryContent s) \<noteq> [] \<or> tempPhotos s \<noteq> []"
    using that by (rule save_ids)
  from run sub diary show ?thesis
    by (simp only: toggleGoal_ids toggleSubTask_ids addSubTask_ids deleteSubTask_ids
        deleteGoal_ids saveDiaryEntry_goals) blast
qed

theorem goal_ids_witness:
  "trim (str ''A'') \<noteq> [] \<and> trim (str ''B'') \<noteq> [] \<and>
   length (goals (addGoals [(str ''A'', [], str ''k3x9'', 1), (str ''B'', [], str ''p07q'', 2)]
     (initial 0))) = 2 \<and>
   map g_id (goals (addGoals [(str ''A'', [], str ''k3x9'', 1), (str ''B'', [], str ''p07q'', 2)]
     (initial 0))) = [str ''p07q'', str ''k3x9''] \<and>
   distinct (map g_id (goals (addGoals
     [(str ''A'', [], str ''k3x9'', 1), (str ''B'', [], str ''p07q'', 2)] (initial 0)))) \<and>
   subTaskInputs (subTaskInput (str ''g1'') (str ''first'') [] scenario) (str ''g1'') =
     Some (str ''first'') \<and>
   trim (str ''first'') \<noteq> [] \<and>
   (0::nat) < length (goals (subTaskInput (str ''g1'') (str ''first'') [] scenario)) \<and>
   g_id (goals (subTaskInput (str ''g1'') (str ''first'') [] scenario) ! 0) = str ''g1'' \<and>
   map st_id (g_subTasks (goals (addSubTask (str ''g1'') (str ''t2'') 3
     (subTaskInput (str ''g1'') (str ''first'') [] scenario)) ! 0)) = [str ''t1'', str ''t2''] \<and>
   trim (diaryContent (diary2\<lparr>diaryContent := str ''Practiced for two hours''\<rparr>)) \<noteq> [] \<and>
   map e_id (diaryEntries (saveDiaryEntry jan15 (str ''k3x9'') 20
     (diary2\<lparr>diaryContent := str ''Practiced for two hours''\<rparr>))) = [str ''d0'', str ''d1'']"
  using goal_ids [of "[(str ''A'', [], str ''k3x9'', 1), (str ''B'', [], str ''p07q'', 2)]"
      "initial 0" "str ''g1''" "str ''t1''" "str ''t1''" 3 jan15 "str ''first''" 0]
    goal_ids [of "[]" "subTaskInput (str ''g1'') (str ''first'') [] scenario" "str ''g1''"
      "str ''t1''" "str ''t2''" 3 jan15 "str ''first''" 0]
    goal_ids [of "[]" "diary2\<lparr>diaryContent := str ''Practiced for two hours''\<rparr>" "str ''g1''"
      "str ''t1''" "str ''k3x9''" 20 jan15 "str ''first''" 0]
  by (simp add: example_defs scenario_eq subTaskInput_def ridOf_def)

text \<open>
  C4 as it is stated fails when \<open>Math.random\<close> gives the same id twice: two calls of
  \<open>addGoal\<close> on the empty store then leave two goals with one id.
\<close>

theorem goal_ids_counterexample:
  "trim (str ''A'') \<noteq> [] \<and> trim (str ''B'') \<noteq> [] \<and>
   length (goals (addGoals [(str ''A'', [], str ''k3x9'', 1), (str ''B'', [], str ''k3x9'', 2)]
     (initial 0))) = 2 \<and>
   \<not> distinct (map g_id (goals (addGoals
     [(str ''A'', [], str ''k3x9'', 1), (str ''B'', [], str ''k3x9'', 2)] (initial 0))))"
  by (simp add: initial_def addGoal_def goalInput_def trim_def is_js_space_def str_def)

end
